theory Spec2Isabelle
  imports Main "HOL-Library.Sublist" "HOL-Library.AList"
begin

section \<open>Synapse SQL client: classification of driver exceptions\<close>

text \<open>
  Source: \<^verbatim>\<open>dlt/destinations/synapse/sql_client.py\<close>,
  \<^verbatim>\<open>PyOdbcSynapseClient._make_database_exception\<close>.

  An exception value is its class (as far as the three \<^verbatim>\<open>isinstance\<close> tests of the
  function can tell) together with its \<^verbatim>\<open>args\<close> tuple. The elements of \<^verbatim>\<open>args\<close>
  are arbitrary Python objects; the function compares them with string literals and
  tests one of them with \<^verbatim>\<open>in\<close>.
\<close>

datatype pyobj = PStr string | PInt int | PNone | PList "pyobj list"

datatype exc_class =
    ProgrammingError    \<comment> \<open>\<^verbatim>\<open>pyodbc.ProgrammingError\<close>\<close>
  | OperationalError    \<comment> \<open>\<^verbatim>\<open>pyodbc.OperationalError\<close>\<close>
  | PyodbcError         \<comment> \<open>any other instance of \<^verbatim>\<open>pyodbc.Error\<close>\<close>
  | OtherException      \<comment> \<open>not an instance of \<^verbatim>\<open>pyodbc.Error\<close>\<close>

record py_exception =
  cls :: exc_class
  args :: "pyobj list"

datatype db_exception =
    DatabaseUndefinedRelation py_exception
  | DatabaseTransientException py_exception
  | DatabaseTerminalException py_exception

datatype py_error = IndexError | TypeError

text \<open>\<^verbatim>\<open>ex.args[i]\<close>: indexing a tuple past its end raises \<^verbatim>\<open>IndexError\<close>.\<close>

definition args_at :: "pyobj list \<Rightarrow> nat \<Rightarrow> py_error + pyobj" where
  "args_at xs i = (if i < length xs then Inr (xs ! i) else Inl IndexError)"

text \<open>
  \<^verbatim>\<open>s in x\<close> for a string literal \<^verbatim>\<open>s\<close>: substring test on a string, membership
  on a list or tuple, \<^verbatim>\<open>TypeError\<close> on an object that is not a container.
\<close>

definition py_contains :: "string \<Rightarrow> pyobj \<Rightarrow> py_error + bool" where
  "py_contains s x =
     (case x of
        PStr t \<Rightarrow> Inr (sublist s t)
      | PList ys \<Rightarrow> Inr (PStr s \<in> set ys)
      | PInt _ \<Rightarrow> Inl TypeError
      | PNone \<Rightarrow> Inl TypeError)"

definition make_database_exception :: "py_exception \<Rightarrow> py_error + db_exception" where
  "make_database_exception ex =
     (if cls ex = ProgrammingError then
        (case args_at (args ex) 0 of
           Inl e \<Rightarrow> Inl e
         | Inr a0 \<Rightarrow>
             if a0 = PStr ''42S02'' then Inr (DatabaseUndefinedRelation ex)
             else
               (case args_at (args ex) 1 of
                  Inl e \<Rightarrow> Inl e
                | Inr a1 \<Rightarrow>
                    if a1 = PStr ''HY000'' then Inr (DatabaseTransientException ex)
                    else if a0 = PStr ''42000'' then
                      (case py_contains ''(15151)'' a1 of
                         Inl e \<Rightarrow> Inl e
                       | Inr found \<Rightarrow>
                           if found then Inr (DatabaseUndefinedRelation ex)
                           else Inr (DatabaseTransientException ex))
                    else Inr (DatabaseTerminalException ex)))
      else if cls ex = OperationalError then Inr (DatabaseTransientException ex)
      else if cls ex = PyodbcError then
        (case args_at (args ex) 0 of
           Inl e \<Rightarrow> Inl e
         | Inr a0 \<Rightarrow>
             if a0 = PStr ''07002'' then Inr (DatabaseTransientException ex)
             else Inr (DatabaseTerminalException ex))
      else Inr (DatabaseTerminalException ex))"

text \<open>
  The shape of \<^verbatim>\<open>args\<close> that the pyodbc driver itself produces: two elements, the
  second one a string.
\<close>

definition driver_args :: "pyobj list \<Rightarrow> bool" where
  "driver_args xs = (case xs of _ # PStr _ # _ \<Rightarrow> True | _ \<Rightarrow> False)"


section \<open>Configuration resolver: looking a single value up\<close>

text \<open>
  Source: \<^verbatim>\<open>dlt/common/configuration/resolve.py\<close>.

  A hint is a Python type annotation. The resolver never inspects it directly but through
  helper predicates of \<^verbatim>\<open>dlt.common.typing\<close> and \<^verbatim>\<open>base_configuration\<close>, which
  are not among the sources; a hint is modelled by what those helpers answer for it. The
  inner hint of a field is a context class, a configuration class (named), or the type
  of a plain value. \<^verbatim>\<open>specs_in_union\<close> holds the configuration classes of a union
  hint as \<^verbatim>\<open>get_all_types_of_class_in_union\<close> lists them, and is empty for a hint
  that is not a union.
\<close>

datatype inner_hint = ContextHint string | ConfigHint string | ValueHint

definition is_context_inner_hint :: "inner_hint \<Rightarrow> bool" where
  "is_context_inner_hint h = (case h of ContextHint _ \<Rightarrow> True | _ \<Rightarrow> False)"

definition is_base_configuration_inner_hint :: "inner_hint \<Rightarrow> bool" where
  "is_base_configuration_inner_hint h = (case h of ValueHint \<Rightarrow> False | _ \<Rightarrow> True)"

datatype type_hint =
  TypeHint (is_secret_hint: bool) (is_final_type: bool) (is_optional_type: bool)
    (extract_inner_hint: inner_hint) (specs_in_union: "type_hint list")

text \<open>
  A provider: its name, its two capability flags, and \<^verbatim>\<open>get_value(key, hint, *sections)\<close>,
  which answers with a value (or \<^verbatim>\<open>None\<close>) and the composite key it used.
\<close>

record 'v config_provider =
  name :: string
  supports_sections :: bool
  supports_secrets :: bool
  get_value :: "string \<Rightarrow> type_hint \<Rightarrow> string list \<Rightarrow> 'v option \<times> string"

text \<open>\<^verbatim>\<open>LookupTrace(provider, sections, key, value)\<close>.\<close>

datatype 'v lookup_trace = LookupTrace string "string list" string "'v option"

text \<open>
  The exceptions of the resolver. \<^verbatim>\<open>ConfigFieldMissingException\<close> carries the name of
  the configuration class and the traces of every missing field; \<^verbatim>\<open>RecursionError\<close>
  is what the interpreter raises when the calls nest deeper than its limit; the last
  alternative stands for any other exception that a hook, a parser of a native value or
  the deserializer may raise.
\<close>

datatype 'v config_error =
    ValueNotSecretException string string
  | UnboundLocalError string
  | ConfigFieldMissingException string "(string \<times> 'v lookup_trace list) list"
  | InvalidNativeValue string "string list" string
  | FinalConfigFieldException string string
  | ConfigurationWrongTypeException
  | RecursionError
  | RaisedException string

text \<open>
  A call of \<^verbatim>\<open>provider.get_value\<close> may touch the environment, the disk or a vault, so
  every function below also returns the calls it made, in call order: the provider's name,
  the key and the sections passed. A call of the context provider, which takes no
  sections, is recorded under the name \<^verbatim>\<open>context_provider\<close>.
\<close>

type_synonym probe = "string \<times> string \<times> string list"

text \<open>
  \<^verbatim>\<open>if pipeline_name:\<close> and \<^verbatim>\<open>if config_section:\<close> test a value that is \<^verbatim>\<open>None\<close>
  or a string; \<^verbatim>\<open>None\<close> and the empty string are false.
\<close>

definition truthy :: "string option \<Rightarrow> bool" where
  "truthy s = (case s of None \<Rightarrow> False | Some t \<Rightarrow> t \<noteq> [])"

definition opt_section :: "string option \<Rightarrow> string list" where
  "opt_section s = (case s of None \<Rightarrow> [] | Some t \<Rightarrow> if t \<noteq> [] then [t] else [])"

text \<open>
  The \<^verbatim>\<open>while True\<close> loop of \<^verbatim>\<open>resolve_single_provider_value\<close>; \<^verbatim>\<open>ns.pop()\<close> drops the
  last element of \<^verbatim>\<open>ns\<close>. Here every trace records the sections of its own call; what
  the traces show when the function returns is settled by \<open>shared_sections\<close> below.
\<close>

function resolve_single_provider_value_loop ::
  "'v config_provider \<Rightarrow> string \<Rightarrow> type_hint \<Rightarrow> string option \<Rightarrow> string option \<Rightarrow> string list
     \<Rightarrow> 'v lookup_trace list \<Rightarrow> ('v config_error + 'v option \<times> 'v lookup_trace list) \<times> probe list"
where
  "resolve_single_provider_value_loop provider key hint pipeline_name config_section ns traces =
     (let full_ns =
            (if (truthy pipeline_name \<or> truthy config_section) \<and> supports_sections provider
             then opt_section pipeline_name @ ns @ opt_section config_section
             else ns);
          value = fst (get_value provider key hint full_ns);
          ns_key = snd (get_value provider key hint full_ns);
          cant_hold_it = (\<not> supports_secrets provider \<and> is_secret_hint hint);
          called = (name provider, key, full_ns)
      in if value \<noteq> None \<and> cant_hold_it then
           (Inl (ValueNotSecretException (name provider) ns_key), [called])
         else
           let traces' =
                 (if \<not> cant_hold_it
                  then traces @ [LookupTrace (name provider) full_ns ns_key value]
                  else traces)
           in if value \<noteq> None then (Inr (value, traces'), [called])
              else if length ns = 0 then (Inr (value, traces'), [called])
              else
                (case resolve_single_provider_value_loop provider key hint pipeline_name
                        config_section (butlast ns) traces' of
                   (r, calls) \<Rightarrow> (r, called # calls)))"
  by pat_completeness auto
termination
  by (relation "measure (\<lambda>(provider, key, hint, pipeline_name, config_section, ns, traces). length ns)")
     auto

text \<open>
  When neither the pipeline name nor the configuration section is added, \<^verbatim>\<open>full_ns\<close> is
  the list \<^verbatim>\<open>ns\<close> itself, not a copy. Every trace of the call then holds that one list,
  which \<^verbatim>\<open>ns.pop()\<close> shortens afterwards: when the loop ends, each of these traces shows
  the sections of the last call. (The arguments of \<^verbatim>\<open>get_value\<close> are unpacked at the
  call and are not affected.)
\<close>

definition with_sections :: "string list \<Rightarrow> 'v lookup_trace \<Rightarrow> 'v lookup_trace" where
  "with_sections ns t = (case t of LookupTrace n _ k v \<Rightarrow> LookupTrace n ns k v)"

definition shared_sections ::
  "('v config_error + 'v option \<times> 'v lookup_trace list) \<times> probe list
     \<Rightarrow> ('v config_error + 'v option \<times> 'v lookup_trace list) \<times> probe list"
where
  "shared_sections r =
     (case r of
        (Inl e, calls) \<Rightarrow> (Inl e, calls)
      | (Inr (value, traces), calls) \<Rightarrow>
          (Inr (value, map (with_sections (snd (snd (last calls)))) traces), calls))"

definition resolve_single_provider_value ::
  "'v config_provider \<Rightarrow> string \<Rightarrow> type_hint \<Rightarrow> string option \<Rightarrow> string option \<Rightarrow> string list
     \<Rightarrow> string list \<Rightarrow> ('v config_error + 'v option \<times> 'v lookup_trace list) \<times> probe list"
where
  "resolve_single_provider_value provider key hint pipeline_name config_section
       explicit_sections embedded_sections =
     (if supports_sections provider then
        (if truthy pipeline_name \<or> truthy config_section then
           resolve_single_provider_value_loop provider key hint pipeline_name config_section
             (explicit_sections @ embedded_sections) []
         else
           shared_sections
             (resolve_single_provider_value_loop provider key hint pipeline_name config_section
                (explicit_sections @ embedded_sections) []))
      else if truthy pipeline_name then (Inr (None, []), [])
      else
        resolve_single_provider_value_loop provider key hint pipeline_name config_section [] [])"

text \<open>
  \<^verbatim>\<open>_apply_embedded_sections_to_config_sections\<close>: the innermost embedded section
  replaces the configuration's own section unless it starts with an underscore, and
  embedded sections that start with an underscore are dropped.
\<close>

definition startswith_underscore :: "string \<Rightarrow> bool" where
  "startswith_underscore s = (case s of [] \<Rightarrow> False | c # _ \<Rightarrow> c = CHR ''_'')"

definition apply_embedded_sections_to_config_sections ::
  "string option \<Rightarrow> string list \<Rightarrow> string option \<times> string list"
where
  "apply_embedded_sections_to_config_sections config_section embedded_sections =
     (if embedded_sections \<noteq> [] then
        ((if \<not> startswith_underscore (last embedded_sections)
          then Some (last embedded_sections) else config_section),
         filter (\<lambda>ns. \<not> startswith_underscore ns) (butlast embedded_sections))
      else (config_section, filter (\<lambda>ns. \<not> startswith_underscore ns) embedded_sections))"

text \<open>
  What \<^verbatim>\<open>_resolve_single_value\<close> reads from the container: the providers in their
  order, the context provider, and the injected section context.
\<close>

text \<open>
  (The fields \<^verbatim>\<open>context_pipeline_name\<close> and \<^verbatim>\<open>context_sections\<close> are
  \<^verbatim>\<open>sections_context.pipeline_name\<close> and \<^verbatim>\<open>sections_context.sections\<close>.)
\<close>

record 'v resolver_context =
  providers :: "'v config_provider list"
  context_provider :: "string \<Rightarrow> inner_hint \<Rightarrow> 'v option \<times> string"
  context_pipeline_name :: "string option"
  context_sections :: "string list"

text \<open>
  The nested function \<^verbatim>\<open>look_sections\<close>: a loop over the providers that extends the
  enclosing \<^verbatim>\<open>traces\<close> and stops at the first value. Its variable \<^verbatim>\<open>value\<close> is local
  and assigned only in the loop body, so with no provider at all \<^verbatim>\<open>return value\<close> reads
  an unbound local. The third argument is the value of the latest iteration, if any.
\<close>

fun look_sections_loop ::
  "'v config_provider list \<Rightarrow> 'v option option \<Rightarrow> string \<Rightarrow> type_hint \<Rightarrow> string option
     \<Rightarrow> string option \<Rightarrow> string list \<Rightarrow> string list \<Rightarrow> 'v lookup_trace list
     \<Rightarrow> ('v config_error + 'v option \<times> 'v lookup_trace list) \<times> probe list"
where
  "look_sections_loop [] latest key hint pipeline_name config_section use_sections
       embedded_sections traces =
     (case latest of
        None \<Rightarrow> (Inl (UnboundLocalError ''value''), [])
      | Some value \<Rightarrow> (Inr (value, traces), []))"
| "look_sections_loop (provider # rest) latest key hint pipeline_name config_section use_sections
       embedded_sections traces =
     (case resolve_single_provider_value provider key hint pipeline_name config_section
             use_sections embedded_sections of
        (Inl e, calls) \<Rightarrow> (Inl e, calls)
      | (Inr (value, provider_traces), calls) \<Rightarrow>
          if value \<noteq> None then (Inr (value, traces @ provider_traces), calls)
          else
            (case look_sections_loop rest (Some value) key hint pipeline_name config_section
                    use_sections embedded_sections (traces @ provider_traces) of
               (r, calls') \<Rightarrow> (r, calls @ calls')))"

definition look_sections ::
  "'v resolver_context \<Rightarrow> string \<Rightarrow> type_hint \<Rightarrow> string option \<Rightarrow> string option \<Rightarrow> string list
     \<Rightarrow> string list \<Rightarrow> 'v lookup_trace list
     \<Rightarrow> ('v config_error + 'v option \<times> 'v lookup_trace list) \<times> probe list"
where
  "look_sections ctx key hint pipeline config_section explicit_sections embedded_sections traces =
     look_sections_loop (providers ctx) None key hint pipeline config_section
       (if explicit_sections \<noteq> [] then explicit_sections else context_sections ctx)
       embedded_sections traces"

definition resolve_single_value ::
  "'v resolver_context \<Rightarrow> string \<Rightarrow> type_hint \<Rightarrow> inner_hint \<Rightarrow> string option \<Rightarrow> string list
     \<Rightarrow> string list \<Rightarrow> ('v config_error + 'v option \<times> 'v lookup_trace list) \<times> probe list"
where
  "resolve_single_value ctx key hint inner_hint config_section explicit_sections embedded_sections =
     (if is_context_inner_hint inner_hint then
        (Inr (fst (context_provider ctx key inner_hint), []), [(''context_provider'', key, [])])
      else if is_base_configuration_inner_hint inner_hint then (Inr (None, []), [])
      else
        let config_section' =
              fst (apply_embedded_sections_to_config_sections config_section embedded_sections);
            embedded_sections' =
              snd (apply_embedded_sections_to_config_sections config_section embedded_sections);
            first_pass =
              (if truthy (context_pipeline_name ctx) then
                 look_sections ctx key hint (context_pipeline_name ctx) config_section'
                   explicit_sections embedded_sections' []
               else (Inr (None, []), []))
        in case first_pass of
             (Inl e, calls) \<Rightarrow> (Inl e, calls)
           | (Inr (value, traces), calls) \<Rightarrow>
               if value = None then
                 (case look_sections ctx key hint None config_section'
                         explicit_sections embedded_sections' traces of
                    (r, calls') \<Rightarrow> (r, calls @ calls'))
               else (Inr (value, traces), calls))"


section \<open>Configuration resolver: resolving a configuration\<close>

text \<open>
  A value is a string, a mapping or an instance of a configuration class (\<^verbatim>\<open>None\<close> is
  the missing value of an option). A configuration instance holds the name of its class,
  its attributes, the flag \<^verbatim>\<open>__is_resolved__\<close> that \<^verbatim>\<open>is_resolved()\<close> reads, and the stored
  \<^verbatim>\<open>__exception__\<close>. The resolver mutates the instance in place and returns it; here
  every function returns the instance as it is afterwards, also when it raises.
\<close>

datatype pyvalue = VStr string | VMapping "(string \<times> pyvalue) list" | VConfig config
and config =
  Config (class_name: string) (fields: "(string \<times> pyvalue option) list") (is_resolved: bool)
    (exception: "pyvalue config_error option")

type_synonym raised = "pyvalue config_error option"

definition set_exception :: "config \<Rightarrow> raised \<Rightarrow> config" where
  "set_exception c e = Config (class_name c) (fields c) (is_resolved c) e"

definition set_is_resolved :: "config \<Rightarrow> bool \<Rightarrow> config" where
  "set_is_resolved c b = Config (class_name c) (fields c) b (exception c)"

text \<open>\<^verbatim>\<open>getattr(config, key, None)\<close> and \<^verbatim>\<open>setattr(config, key, value)\<close>.\<close>

definition getattr :: "config \<Rightarrow> string \<Rightarrow> pyvalue option" where
  "getattr c key = (case map_of (fields c) key of None \<Rightarrow> None | Some v \<Rightarrow> v)"

definition setattr :: "config \<Rightarrow> string \<Rightarrow> pyvalue option \<Rightarrow> config" where
  "setattr c key v = Config (class_name c) (AList.update key v (fields c)) (is_resolved c) (exception c)"

text \<open>
  Truth value of an object, \<^verbatim>\<open>isinstance(x, C_Mapping)\<close> and \<^verbatim>\<open>x.get(key)\<close>. A
  configuration instance is a mapping over its attributes (the credentials classes call
  \<^verbatim>\<open>dict(self)\<close> and \<^verbatim>\<open>self.update\<close>).
\<close>

definition truthy_value :: "pyvalue option \<Rightarrow> bool" where
  "truthy_value x =
     (case x of
        None \<Rightarrow> False
      | Some (VStr t) \<Rightarrow> t \<noteq> []
      | Some (VMapping m) \<Rightarrow> m \<noteq> []
      | Some (VConfig c) \<Rightarrow> fields c \<noteq> [])"

definition is_mapping :: "pyvalue option \<Rightarrow> bool" where
  "is_mapping x = (case x of Some (VMapping _) \<Rightarrow> True | Some (VConfig _) \<Rightarrow> True | _ \<Rightarrow> False)"

definition mapping_get :: "pyvalue option \<Rightarrow> string \<Rightarrow> pyvalue option" where
  "mapping_get x key =
     (case x of
        Some (VMapping m) \<Rightarrow> map_of m key
      | Some (VConfig c) \<Rightarrow> getattr c key
      | _ \<Rightarrow> None)"

text \<open>
  What the resolver does besides computing: calls of providers, calls of
  \<^verbatim>\<open>log_traces\<close> (with the key and the traces), the \<^verbatim>\<open>print\<close> of the union branch, and
  calls of lifecycle hooks (with the class that defines the hook and the method name).
\<close>

datatype effect =
    Called probe
  | LogTraces string "pyvalue lookup_trace list"
  | Printed "pyvalue option"
  | Hook string string

text \<open>
  What a configuration class contributes, none of it among the sources: its
  \<^verbatim>\<open>__section__\<close>, whether it derives from \<^verbatim>\<open>CredentialsConfiguration\<close>, its resolvable
  fields with their hints, a fresh instance, its method resolution order, its parser of
  native values, and the hooks the class itself defines. A parser or a hook returns the
  exception it raises, if any, and the instance as it leaves it.
\<close>

datatype native_raise = ValueError string | NotImplementedError | Raised "pyvalue config_error"

record class_spec =
  class_section :: "string option"
  is_credentials :: bool
  resolvable_fields :: "(string \<times> type_hint) list"
  new_instance :: config
  mro :: "string list"
  parse_native_representation :: "config \<Rightarrow> pyvalue \<Rightarrow> native_raise option \<times> config"
  on_resolved :: "(config \<Rightarrow> raised \<times> config) option"
  on_partial :: "(config \<Rightarrow> raised \<times> config) option"

record resolver_env =
  container :: "pyvalue resolver_context"
  classes :: "string \<Rightarrow> class_spec"
  deserialize_value :: "string \<Rightarrow> pyvalue \<Rightarrow> inner_hint \<Rightarrow> pyvalue config_error + pyvalue"

definition TSecretValue :: type_hint where
  "TSecretValue = TypeHint True False False ValueHint []"

definition AnyType :: type_hint where
  "AnyType = TypeHint False False False ValueHint []"

text \<open>
  \<^verbatim>\<open>_call_method_in_mro\<close>: every class of the method resolution order that itself
  defines the method has it called on the instance, in that order.
\<close>

definition hook_of :: "class_spec \<Rightarrow> string \<Rightarrow> (config \<Rightarrow> raised \<times> config) option" where
  "hook_of spec method_name =
     (if method_name = ''on_resolved'' then on_resolved spec
      else if method_name = ''on_partial'' then on_partial spec
      else None)"

fun call_method_in_mro_loop ::
  "(string \<Rightarrow> class_spec) \<Rightarrow> string \<Rightarrow> string list \<Rightarrow> config \<Rightarrow> raised \<times> config \<times> effect list"
where
  "call_method_in_mro_loop table method_name [] config = (None, config, [])"
| "call_method_in_mro_loop table method_name (c # rest) config =
     (case hook_of (table c) method_name of
        None \<Rightarrow> call_method_in_mro_loop table method_name rest config
      | Some hook \<Rightarrow>
          (case hook config of
             (Some e, config') \<Rightarrow> (Some e, config', [Hook c method_name])
           | (None, config') \<Rightarrow>
               (case call_method_in_mro_loop table method_name rest config' of
                  (r, config'', effects) \<Rightarrow> (r, config'', Hook c method_name # effects))))"

definition call_method_in_mro ::
  "resolver_env \<Rightarrow> config \<Rightarrow> string \<Rightarrow> raised \<times> config \<times> effect list"
where
  "call_method_in_mro env config method_name =
     call_method_in_mro_loop (classes env) method_name
       (mro (classes env (class_name config))) config"

text \<open>
  The functions below call \<^verbatim>\<open>_resolve_configuration\<close> for embedded configurations.
  They take it as the argument \<open>resolve\<close>; the recursion is closed further down.
\<close>

type_synonym resolver =
  "config \<Rightarrow> string list \<Rightarrow> string list \<Rightarrow> pyvalue option \<Rightarrow> bool \<Rightarrow> raised \<times> config \<times> effect list"

text \<open>
  The branch of \<^verbatim>\<open>_resolve_config_field\<close> for a hint whose inner hint is a
  configuration class. The embedded instance is the value when that is an instance, else
  the default when that is one, else a fresh instance. \<open>explicit_is_default\<close> says
  that the explicit value is the very object that is the default (the case of a final
  hint). The second component of the result is the default as the caller sees it
  afterwards: when the embedded instance is the object stored in the attribute, the
  caller sees it as resolution left it.
\<close>

definition resolve_embedded_config ::
  "resolver_env \<Rightarrow> resolver \<Rightarrow> string \<Rightarrow> type_hint \<Rightarrow> string \<Rightarrow> pyvalue option \<Rightarrow> pyvalue option
     \<Rightarrow> bool \<Rightarrow> pyvalue lookup_trace list \<Rightarrow> string list \<Rightarrow> string list \<Rightarrow> bool
     \<Rightarrow> (pyvalue config_error + pyvalue option \<times> pyvalue lookup_trace list)
         \<times> pyvalue option \<times> effect list"
where
  "resolve_embedded_config env resolve key hint inner_class value default_value
       explicit_is_default traces explicit_sections embedded_sections accept_partial =
     (let taken =
            (case value of
               Some (VConfig c) \<Rightarrow> (c, None, default_value, explicit_is_default)
             | _ \<Rightarrow>
                 (case default_value of
                    Some (VConfig c) \<Rightarrow> (c, value, None, True)
                  | _ \<Rightarrow> (new_instance (classes env inner_class), value, default_value, False)));
          embedded_config = fst taken;
          value1 = fst (snd taken);
          default1 = fst (snd (snd taken));
          in_attribute = snd (snd (snd taken));
          seen = (\<lambda>c. if in_attribute then Some (VConfig c) else default_value);
          spec = classes env (class_name embedded_config)
      in if is_resolved embedded_config then
           (Inr (Some (VConfig embedded_config), traces), default_value, [])
         else
           let initial =
                 (if truthy (class_section spec) \<and> value1 = None then
                    let initial_key =
                          (case fst (apply_embedded_sections_to_config_sections (class_section spec)
                                       (embedded_sections @ [key])) of
                             None \<Rightarrow> [] | Some k \<Rightarrow> k);
                        initial_embedded =
                          snd (apply_embedded_sections_to_config_sections (class_section spec)
                                 (embedded_sections @ [key]));
                        initial_hint = (if is_credentials spec then TSecretValue else AnyType)
                    in case resolve_single_value (container env) initial_key initial_hint ValueHint
                              None explicit_sections initial_embedded of
                         (Inl e, calls) \<Rightarrow> (Inl e, map Called calls)
                       | (Inr (v, initial_traces), calls) \<Rightarrow>
                           if is_mapping v then (Inr (None, traces), map Called calls)
                           else (Inr (v, traces @ initial_traces),
                                 map Called calls @ [LogTraces initial_key initial_traces])
                  else (Inr (value1, traces), []))
           in case initial of
                (Inl e, effects) \<Rightarrow> (Inl e, default_value, effects)
              | (Inr (value2, traces2), effects) \<Rightarrow>
                  (case resolve embedded_config explicit_sections (embedded_sections @ [key])
                          (case value2 of None \<Rightarrow> default1 | Some v \<Rightarrow> Some v)
                          (accept_partial \<or> is_optional_type hint) of
                     (Some e, c', effects') \<Rightarrow> (Inl e, seen c', effects @ effects')
                   | (None, c', effects') \<Rightarrow>
                       (Inr (Some (VConfig c'), traces2), seen c', effects @ effects')))"

text \<open>
  \<^verbatim>\<open>_resolve_config_field\<close>. \<^verbatim>\<open>value is not explicit_value\<close> holds exactly when the value
  came from a provider, that is when no explicit value was given.
\<close>

definition resolve_config_field ::
  "resolver_env \<Rightarrow> resolver \<Rightarrow> string \<Rightarrow> type_hint \<Rightarrow> pyvalue option \<Rightarrow> pyvalue option \<Rightarrow> bool
     \<Rightarrow> string option \<Rightarrow> string list \<Rightarrow> string list \<Rightarrow> bool
     \<Rightarrow> (pyvalue config_error + pyvalue option \<times> pyvalue lookup_trace list)
         \<times> pyvalue option \<times> effect list"
where
  "resolve_config_field env resolve key hint default_value explicit_value explicit_is_default
       config_sections explicit_sections embedded_sections accept_partial =
     (let inner_hint = extract_inner_hint hint;
          looked =
            (if explicit_value \<noteq> None then (Inr (explicit_value, []), [])
             else
               (case resolve_single_value (container env) key hint inner_hint config_sections
                       explicit_sections embedded_sections of
                  (Inl e, calls) \<Rightarrow> (Inl e, map Called calls)
                | (Inr (value, traces), calls) \<Rightarrow>
                    (Inr (value, traces), map Called calls @ [LogTraces key traces])))
      in case looked of
           (Inl e, effects) \<Rightarrow> (Inl e, default_value, effects)
         | (Inr (value, traces), effects) \<Rightarrow>
             (case inner_hint of
                ContextHint _ \<Rightarrow>
                  (Inr (case value of None \<Rightarrow> default_value | Some v \<Rightarrow> Some v, traces),
                   default_value, effects)
              | ConfigHint inner_class \<Rightarrow>
                  (case resolve_embedded_config env resolve key hint inner_class value default_value
                          explicit_is_default traces explicit_sections embedded_sections
                          accept_partial of
                     (r, seen, effects') \<Rightarrow> (r, seen, effects @ effects'))
              | ValueHint \<Rightarrow>
                  (case value of
                     None \<Rightarrow> (Inr (default_value, traces), default_value, effects)
                   | Some v \<Rightarrow>
                       if explicit_value = None then
                         (case deserialize_value env key v inner_hint of
                            Inl e \<Rightarrow> (Inl e, default_value, effects)
                          | Inr v' \<Rightarrow> (Inr (Some v', traces), default_value, effects))
                       else (Inr (Some v, traces), default_value, effects))))"


text \<open>
  The loop of \<^verbatim>\<open>_resolve_config_fields\<close> over the configuration classes of a union
  hint. Each class is tried as the hint of the field; the first that resolves is printed
  and ends the loop. \<^verbatim>\<open>ConfigFieldMissingException\<close> adds the traces it carries to the
  traces so far; \<^verbatim>\<open>InvalidNativeValue\<close> is raised again only from the last class. When
  no class resolves, the value stays \<^verbatim>\<open>None\<close>.
\<close>

fun resolve_union_loop ::
  "resolver_env \<Rightarrow> resolver \<Rightarrow> string \<Rightarrow> type_hint list \<Rightarrow> pyvalue option \<Rightarrow> pyvalue option \<Rightarrow> bool
     \<Rightarrow> string option \<Rightarrow> string list \<Rightarrow> string list \<Rightarrow> bool \<Rightarrow> pyvalue lookup_trace list
     \<Rightarrow> (pyvalue config_error + pyvalue option \<times> pyvalue lookup_trace list)
         \<times> pyvalue option \<times> effect list"
where
  "resolve_union_loop env resolve key [] default_value explicit_value explicit_is_default
       config_sections explicit_sections embedded_sections accept_partial traces =
     (Inr (None, traces), default_value, [])"
| "resolve_union_loop env resolve key (alt_spec # rest) default_value explicit_value
       explicit_is_default config_sections explicit_sections embedded_sections accept_partial
       traces =
     (case resolve_config_field env resolve key alt_spec default_value explicit_value
             explicit_is_default config_sections explicit_sections embedded_sections
             accept_partial of
        (Inr (current_value, traces'), seen, effects) \<Rightarrow>
          (Inr (current_value, traces'), seen, effects @ [Printed current_value])
      | (Inl e, seen, effects) \<Rightarrow>
          (case e of
             ConfigFieldMissingException n missing \<Rightarrow>
               (case resolve_union_loop env resolve key rest seen
                       (if explicit_is_default then seen else explicit_value) explicit_is_default
                       config_sections explicit_sections embedded_sections accept_partial
                       (traces @ concat (map snd missing)) of
                  (r, seen', effects') \<Rightarrow> (r, seen', effects @ effects'))
           | InvalidNativeValue n es msg \<Rightarrow>
               if rest = [] then (Inl e, seen, effects)
               else
                 (case resolve_union_loop env resolve key rest seen
                         (if explicit_is_default then seen else explicit_value)
                         explicit_is_default config_sections explicit_sections embedded_sections
                         accept_partial traces of
                    (r, seen', effects') \<Rightarrow> (r, seen', effects @ effects'))
           | _ \<Rightarrow> (Inl e, seen, effects)))"

text \<open>
  The loop of \<^verbatim>\<open>_resolve_config_fields\<close> over the resolvable fields, with the
  dictionary of unresolved fields built so far, and the raise that follows the loop.
\<close>

fun resolve_config_fields_loop ::
  "resolver_env \<Rightarrow> resolver \<Rightarrow> config \<Rightarrow> pyvalue option \<Rightarrow> string list \<Rightarrow> string list \<Rightarrow> bool
     \<Rightarrow> (string \<times> type_hint) list \<Rightarrow> (string \<times> pyvalue lookup_trace list) list
     \<Rightarrow> raised \<times> config \<times> effect list"
where
  "resolve_config_fields_loop env resolve config explicit_values explicit_sections
       embedded_sections accept_partial [] unresolved_fields =
     (if unresolved_fields \<noteq> []
      then (Some (ConfigFieldMissingException (class_name config) unresolved_fields), config, [])
      else (None, config, []))"
| "resolve_config_fields_loop env resolve config explicit_values explicit_sections
       embedded_sections accept_partial ((key, hint) # rest) unresolved_fields =
     (let default_value = getattr config key;
          explicit_is_default = (\<not> truthy_value explicit_values \<and> is_final_type hint);
          explicit_value =
            (if truthy_value explicit_values then mapping_get explicit_values key
             else if is_final_type hint then default_value
             else None);
          config_sections = class_section (classes env (class_name config))
      in case (if length (specs_in_union hint) > 1 then
                 resolve_union_loop env resolve key (specs_in_union hint) default_value
                   explicit_value explicit_is_default config_sections explicit_sections
                   embedded_sections accept_partial []
               else
                 resolve_config_field env resolve key hint default_value explicit_value
                   explicit_is_default config_sections explicit_sections embedded_sections
                   accept_partial) of
           (r, seen, effects) \<Rightarrow>
             let config1 = (if seen \<noteq> default_value then setattr config key seen else config)
             in case r of
                  Inl e \<Rightarrow> (Some e, config1, effects)
                | Inr (current_value, traces) \<Rightarrow>
                    let unresolved_fields' =
                          (if \<not> is_optional_type hint \<and> current_value = None
                           then AList.update key traces unresolved_fields
                           else unresolved_fields)
                    in if seen \<noteq> current_value \<and> is_final_type hint then
                         (Some (FinalConfigFieldException (class_name config) key), config1,
                          effects)
                       else
                         (case resolve_config_fields_loop env resolve
                                 (if seen \<noteq> current_value then setattr config1 key current_value
                                  else config1)
                                 explicit_values explicit_sections embedded_sections
                                 accept_partial rest unresolved_fields' of
                            (r', config', effects') \<Rightarrow> (r', config', effects @ effects')))"

definition resolve_config_fields ::
  "resolver_env \<Rightarrow> resolver \<Rightarrow> config \<Rightarrow> pyvalue option \<Rightarrow> string list \<Rightarrow> string list \<Rightarrow> bool
     \<Rightarrow> raised \<times> config \<times> effect list"
where
  "resolve_config_fields env resolve config explicit_values explicit_sections embedded_sections
       accept_partial =
     resolve_config_fields_loop env resolve config explicit_values explicit_sections
       embedded_sections accept_partial
       (resolvable_fields (classes env (class_name config))) []"

text \<open>
  The statements of the inner \<^verbatim>\<open>try\<close> block of \<^verbatim>\<open>_resolve_configuration\<close>, for a
  configuration that is not resolved: the native value, the fields, the
  \<^verbatim>\<open>on_resolved\<close> hooks, the flag.
\<close>

definition resolve_configuration_try ::
  "resolver_env \<Rightarrow> resolver \<Rightarrow> config \<Rightarrow> string list \<Rightarrow> string list \<Rightarrow> pyvalue option \<Rightarrow> bool
     \<Rightarrow> raised \<times> config \<times> effect list"
where
  "resolve_configuration_try env resolve config explicit_sections embedded_sections
       explicit_value accept_partial =
     (let consumed = (truthy_value explicit_value \<and> \<not> is_mapping explicit_value);
          parsed =
            (if consumed then
               (case explicit_value of
                  None \<Rightarrow> (None, config)
                | Some v \<Rightarrow>
                    (case parse_native_representation (classes env (class_name config)) config v of
                       (None, c) \<Rightarrow> (None, c)
                     | (Some (ValueError msg), c) \<Rightarrow>
                         (Some (InvalidNativeValue (class_name config) embedded_sections msg), c)
                     | (Some NotImplementedError, c) \<Rightarrow> (None, c)
                     | (Some (Raised e), c) \<Rightarrow> (Some e, c)))
             else (None, config))
      in case parsed of
           (Some e, c) \<Rightarrow> (Some e, c, [])
         | (None, c) \<Rightarrow>
             (case (if \<not> is_resolved c then
                      resolve_config_fields env resolve c (if consumed then None else explicit_value)
                        explicit_sections embedded_sections accept_partial
                    else (None, c, [])) of
                (Some e, c1, effects) \<Rightarrow> (Some e, c1, effects)
              | (None, c1, effects) \<Rightarrow>
                  (case call_method_in_mro env c1 ''on_resolved'' of
                     (Some e, c2, effects') \<Rightarrow> (Some e, c2, effects @ effects')
                   | (None, c2, effects') \<Rightarrow>
                       (None, set_is_resolved c2 True, effects @ effects'))))"

text \<open>
  The handler of \<^verbatim>\<open>ConfigFieldMissingException\<close>: store it, call the \<^verbatim>\<open>on_partial\<close>
  hooks, then the \<^verbatim>\<open>on_resolved\<close> hooks if these resolved the configuration, else raise
  it again unless a partial configuration is accepted.
\<close>

definition resolve_configuration_partial ::
  "resolver_env \<Rightarrow> config \<Rightarrow> pyvalue config_error \<Rightarrow> bool \<Rightarrow> raised \<times> config \<times> effect list"
where
  "resolve_configuration_partial env config cm_ex accept_partial =
     (case call_method_in_mro env (set_exception config (Some cm_ex)) ''on_partial'' of
        (Some e, c, effects) \<Rightarrow> (Some e, c, effects)
      | (None, c, effects) \<Rightarrow>
          if is_resolved c then
            (case call_method_in_mro env c ''on_resolved'' of
               (r, c', effects') \<Rightarrow> (r, c', effects @ effects'))
          else if \<not> accept_partial then (Some cm_ex, c, effects)
          else (None, c, effects))"

definition is_config_field_missing :: "pyvalue config_error \<Rightarrow> bool" where
  "is_config_field_missing e = (case e of ConfigFieldMissingException _ _ \<Rightarrow> True | _ \<Rightarrow> False)"

text \<open>
  The body of \<^verbatim>\<open>_resolve_configuration\<close>. A resolved configuration is returned at
  once. Otherwise the stored exception is cleared and the \<^verbatim>\<open>try\<close> block runs; whatever
  is raised in the end is stored on the configuration and raised.
\<close>

definition resolve_configuration_body ::
  "resolver_env \<Rightarrow> resolver \<Rightarrow> resolver"
where
  "resolve_configuration_body env resolve config explicit_sections embedded_sections
       explicit_value accept_partial =
     (if is_resolved config then (None, config, [])
      else
        let handled =
              (case resolve_configuration_try env resolve (set_exception config None)
                      explicit_sections embedded_sections explicit_value accept_partial of
                 (None, c, effects) \<Rightarrow> (None, c, effects)
               | (Some e, c, effects) \<Rightarrow>
                   if is_config_field_missing e then
                     (case resolve_configuration_partial env c e accept_partial of
                        (r, c', effects') \<Rightarrow> (r, c', effects @ effects'))
                   else (Some e, c, effects))
        in case handled of
             (None, c, effects) \<Rightarrow> (None, c, effects)
           | (Some ex, c, effects) \<Rightarrow> (Some ex, set_exception c (Some ex), effects))"

text \<open>
  \<^verbatim>\<open>_resolve_configuration\<close>. The first argument bounds the depth of the nested calls,
  as the interpreter's recursion limit does: a call that would exceed it raises
  \<^verbatim>\<open>RecursionError\<close> before its body runs.
\<close>

primrec resolve_configuration' :: "nat \<Rightarrow> resolver_env \<Rightarrow> resolver" where
  "resolve_configuration' 0 env =
     (\<lambda>config explicit_sections embedded_sections explicit_value accept_partial.
        (Some RecursionError, config, []))"
| "resolve_configuration' (Suc depth) env =
     resolve_configuration_body env (resolve_configuration' depth env)"

text \<open>
  \<^verbatim>\<open>resolve_configuration\<close>, the public entry. Its argument may be any object; a
  configuration with a section and no explicit value is first looked up as a whole under
  its section.
\<close>

definition resolve_configuration ::
  "nat \<Rightarrow> resolver_env \<Rightarrow> pyvalue \<Rightarrow> string list \<Rightarrow> pyvalue option \<Rightarrow> bool
     \<Rightarrow> raised \<times> pyvalue \<times> effect list"
where
  "resolve_configuration depth env obj sections explicit_value accept_partial =
     (case obj of
        VConfig config \<Rightarrow>
          (let spec = classes env (class_name config);
               initial =
                 (if truthy (class_section spec) \<and> explicit_value = None then
                    (case resolve_single_value (container env)
                            (case class_section spec of None \<Rightarrow> [] | Some k \<Rightarrow> k)
                            (if is_credentials spec then TSecretValue else AnyType) ValueHint
                            None sections [] of
                       (Inl e, calls) \<Rightarrow> (Inl e, map Called calls)
                     | (Inr (v, traces), calls) \<Rightarrow>
                         if is_mapping v then (Inr None, map Called calls)
                         else (Inr v,
                               map Called calls
                               @ [LogTraces (case class_section spec of None \<Rightarrow> [] | Some k \<Rightarrow> k)
                                    traces]))
                  else (Inr explicit_value, []))
           in case initial of
                (Inl e, effects) \<Rightarrow> (Some e, obj, effects)
              | (Inr explicit_value', effects) \<Rightarrow>
                  (case resolve_configuration' depth env config sections [] explicit_value'
                          accept_partial of
                     (r, c, effects') \<Rightarrow> (r, VConfig c, effects @ effects')))
      | _ \<Rightarrow> (Some ConfigurationWrongTypeException, obj, []))"


section \<open>Schema contract engine\<close>

text \<open>
  The schema class (\<^verbatim>\<open>dlt/common/schema/schema.py\<close>) is not among the sources; only
  its tests are (\<^verbatim>\<open>tests/common/schema/test_contract_mode_functions.py\<close>). The
  definitions of this section follow the specification, section 4.C, and are checked
  against the assertions of the tests further down.
\<close>

datatype contract_mode = evolve | discard_row | discard_value | freeze

record contract_modes =
  tables :: contract_mode
  columns :: contract_mode
  data_type :: contract_mode

text \<open>
  Modelled from the spec: the serialized contract mode, missing with the schema module.
  "Either an atom string from the set evolve, discard_row, discard_value, freeze, or a
  mapping with optional keys tables, columns, data_type, each carrying an atom."
\<close>

datatype contract_settings =
    Atom contract_mode
  | Mapping "contract_mode option" "contract_mode option" "contract_mode option"

text \<open>
  Modelled from the spec: columns, tables and the schema, missing with the schema module.
  "A table has: a name, an optional parent, a mapping from column name to column schema,
  an optional per-table contract override, and an optional variant flag on columns. A
  column is complete iff it has a concrete data_type."
\<close>

record column_schema =
  column_name :: string
  column_data_type :: "string option"
  variant :: bool

record table_schema =
  table_name :: string
  parent :: "string option"
  table_columns :: "(string \<times> column_schema) list"
  schema_contract :: "contract_settings option"

record schema =
  schema_name :: string
  schema_tables :: "(string \<times> table_schema) list"
  settings_schema_contract :: "contract_settings option"

definition is_complete_column :: "column_schema \<Rightarrow> bool" where
  "is_complete_column c = (column_data_type c \<noteq> None)"

text \<open>Modelled from the spec: the schema-wide default, \<^verbatim>\<open>evolve/evolve/evolve\<close>.\<close>

definition DEFAULT_SCHEMA_CONTRACT_MODE :: contract_modes where
  "DEFAULT_SCHEMA_CONTRACT_MODE = \<lparr>tables = evolve, columns = evolve, data_type = evolve\<rparr>"

text \<open>
  Modelled from the spec: overlaying one override on a triple, missing with the schema
  module. "An atom override sets all three slots"; a mapping sets the slots it names. The
  tests fix what happens to the slots a mapping does not name: with the schema set to
  \<^verbatim>\<open>"freeze"\<close> and the table to \<^verbatim>\<open>{tables: evolve, columns: discard_value}\<close> they
  expect \<^verbatim>\<open>data_type: freeze\<close>, so an unnamed slot keeps the value of the layers below.
\<close>

definition overlay :: "contract_settings option \<Rightarrow> contract_modes \<Rightarrow> contract_modes" where
  "overlay settings modes =
     (case settings of
        None \<Rightarrow> modes
      | Some (Atom a) \<Rightarrow> \<lparr>tables = a, columns = a, data_type = a\<rparr>
      | Some (Mapping t c d) \<Rightarrow>
          \<lparr>tables = (case t of None \<Rightarrow> tables modes | Some a \<Rightarrow> a),
           columns = (case c of None \<Rightarrow> columns modes | Some a \<Rightarrow> a),
           data_type = (case d of None \<Rightarrow> data_type modes | Some a \<Rightarrow> a)\<rparr>)"

definition table_override :: "schema \<Rightarrow> string \<Rightarrow> contract_settings option" where
  "table_override s n =
     (case map_of (schema_tables s) n of None \<Rightarrow> None | Some t \<Rightarrow> schema_contract t)"

text \<open>
  Modelled from the spec: \<^verbatim>\<open>Schema.resolve_contract_settings_for_table\<close>, missing with
  the schema module. "Start from the schema-wide default; overlay the schema's own
  override; then overlay the parent table's override (if any); then overlay the table's
  override."
\<close>

definition resolve_contract_settings_for_table ::
  "schema \<Rightarrow> string option \<Rightarrow> string \<Rightarrow> contract_modes"
where
  "resolve_contract_settings_for_table s parent_table table =
     overlay (table_override s table)
       (overlay (case parent_table of None \<Rightarrow> None | Some p \<Rightarrow> table_override s p)
          (overlay (settings_schema_contract s) DEFAULT_SCHEMA_CONTRACT_MODE))"

text \<open>
  Modelled from the spec: the error of the contract engine, missing with the schema
  module. "A contract violation carries table_name, column_name?, mode_slot,
  change_kind."
\<close>

datatype mode_slot = tables_slot | columns_slot | data_type_slot

datatype change_kind = new_table | new_variant | new_column

datatype schema_error = SchemaFrozen string "string option" mode_slot change_kind

text \<open>
  Modelled from the spec: the change kinds of a column of the delta and the slots that
  govern them, missing with the schema module. "New variant column: a column in the
  delta whose variant flag is set. New column: a column in the delta not present as a
  complete column in existing_table (incomplete columns count as absent). Variant
  creation additionally respects the columns slot: a variant is also a new column."
\<close>

definition is_new_column :: "table_schema \<Rightarrow> string \<Rightarrow> bool" where
  "is_new_column existing n =
     (case map_of (table_columns existing) n of
        None \<Rightarrow> True
      | Some c \<Rightarrow> \<not> is_complete_column c)"

definition column_changes ::
  "contract_modes \<Rightarrow> table_schema \<Rightarrow> string \<times> column_schema
     \<Rightarrow> (mode_slot \<times> change_kind \<times> contract_mode) list"
where
  "column_changes modes existing nc =
     (if variant (snd nc) then
        [(data_type_slot, new_variant, data_type modes), (columns_slot, new_column, columns modes)]
      else if is_new_column existing (fst nc) then
        [(columns_slot, new_column, columns modes)]
      else [])"

definition column_has :: "contract_modes \<Rightarrow> table_schema \<Rightarrow> contract_mode
     \<Rightarrow> string \<times> column_schema \<Rightarrow> bool" where
  "column_has modes existing m nc =
     list_ex (\<lambda>ch. snd (snd ch) = m) (column_changes modes existing nc)"

definition frozen_changes ::
  "contract_modes \<Rightarrow> table_schema \<Rightarrow> (string \<times> column_schema) list
     \<Rightarrow> (string \<times> mode_slot \<times> change_kind) list"
where
  "frozen_changes modes existing cols =
     concat (map (\<lambda>nc. map (\<lambda>ch. (fst nc, fst ch, fst (snd ch)))
                          (filter (\<lambda>ch. snd (snd ch) = freeze) (column_changes modes existing nc)))
               cols)"

text \<open>
  Modelled from the spec: \<^verbatim>\<open>Schema.apply_schema_contract\<close>, missing with the schema
  module. A new table (no existing table) is decided by the tables slot alone, as the
  outcome matrix and the tests have it. For an existing table every column of the delta
  is evaluated under the slots of its change kinds and "the strictest outcome wins.
  discard_row (yielding (None, None)) supersedes discard_value; freeze supersedes both":
  any frozen change raises, else any change under discard_row discards the row, else the
  columns with a change under discard_value are stripped from data and delta.
\<close>

definition apply_schema_contract ::
  "contract_modes \<Rightarrow> string \<Rightarrow> (string \<times> 'v) list \<Rightarrow> table_schema \<Rightarrow> table_schema option
     \<Rightarrow> schema_error + ((string \<times> 'v) list option \<times> table_schema option)"
where
  "apply_schema_contract modes table data delta existing_table =
     (case existing_table of
        None \<Rightarrow>
          (case tables modes of
             evolve \<Rightarrow> Inr (Some data, Some delta)
           | discard_row \<Rightarrow> Inr (None, None)
           | discard_value \<Rightarrow> Inr (None, None)
           | freeze \<Rightarrow> Inl (SchemaFrozen table None tables_slot new_table))
      | Some existing \<Rightarrow>
          (case frozen_changes modes existing (table_columns delta) of
             (n, slot, kind) # _ \<Rightarrow> Inl (SchemaFrozen table (Some n) slot kind)
           | [] \<Rightarrow>
               if list_ex (column_has modes existing discard_row) (table_columns delta)
               then Inr (None, None)
               else
                 let stripped =
                       map fst (filter (column_has modes existing discard_value)
                                  (table_columns delta))
                 in Inr (Some (filter (\<lambda>kv. fst kv \<notin> set stripped) data),
                         Some (delta\<lparr>table_columns :=
                                 filter (\<lambda>nc. fst nc \<notin> set stripped) (table_columns delta)\<rparr>))))"


section \<open>Extraction: committing the files of an extract\<close>

text \<open>
  Source: \<^verbatim>\<open>experiments/pipeline/extract.py\<close>, class \<^verbatim>\<open>ExtractorStorage\<close>.

  A path relative to the storage root is the list of its components;
  \<^verbatim>\<open>os.path.join(folder, name)\<close> appends one component (the names joined here are an
  extract id and the base names of a directory listing, neither of which holds a
  separator).
\<close>

type_synonym path = "string list"

datatype storage_op =
    AtomicRename path path
  | LinkHard path path
  | DeleteFolder path

datatype storage_error =
    StoragePathNotFound path
  | AtomicRenameFailed path path
  | LinkFailed path path

text \<open>
  Modelled from the spec: the file storage behind \<^verbatim>\<open>self.storage\<close>
  (\<^verbatim>\<open>dlt.common.storages.FileStorage\<close>), missing from the sources. Its state is the set
  of folders, the files with their contents, and the journal of the operations performed
  on it; an operation that fails changes nothing.
\<close>

record file_storage =
  folders :: "path list"
  files :: "(path \<times> string) list"
  journal :: "storage_op list"

text \<open>
  Modelled from the spec: \<^verbatim>\<open>FileStorage.list_folder_files(folder, to_root=False)\<close>,
  the base names of the files that lie directly in the folder.
\<close>

definition list_folder_files :: "file_storage \<Rightarrow> path \<Rightarrow> storage_error + string list" where
  "list_folder_files st folder =
     (if folder \<in> set (folders st) then
        Inr (map (\<lambda>f. last (fst f))
               (filter (\<lambda>f. fst f \<noteq> [] \<and> butlast (fst f) = folder) (files st)))
      else Inl (StoragePathNotFound folder))"

text \<open>
  Modelled from the spec: \<^verbatim>\<open>FileStorage.atomic_rename\<close>, one rename of the file
  system. It fails when the source is not a file, when the folder of the target does not
  exist, or when the target is a folder; a file already at the target is replaced.
\<close>

definition atomic_rename :: "file_storage \<Rightarrow> path \<Rightarrow> path \<Rightarrow> storage_error + file_storage" where
  "atomic_rename st from_file to_file =
     (case map_of (files st) from_file of
        None \<Rightarrow> Inl (AtomicRenameFailed from_file to_file)
      | Some content \<Rightarrow>
          if to_file = [] \<or> butlast to_file \<notin> set (folders st) \<or> to_file \<in> set (folders st)
          then Inl (AtomicRenameFailed from_file to_file)
          else Inr (st\<lparr>files := filter (\<lambda>f. fst f \<noteq> from_file \<and> fst f \<noteq> to_file) (files st)
                                   @ [(to_file, content)],
                        journal := journal st @ [AtomicRename from_file to_file]\<rparr>))"

text \<open>
  Modelled from the spec: \<^verbatim>\<open>FileStorage.link_hard\<close>, a second name for the same file.
  It fails when the source is not a file, when the folder of the target does not exist,
  or when the target exists.
\<close>

definition link_hard :: "file_storage \<Rightarrow> path \<Rightarrow> path \<Rightarrow> storage_error + file_storage" where
  "link_hard st from_file to_file =
     (case map_of (files st) from_file of
        None \<Rightarrow> Inl (LinkFailed from_file to_file)
      | Some content \<Rightarrow>
          if to_file = [] \<or> butlast to_file \<notin> set (folders st) \<or> to_file \<in> set (folders st)
             \<or> map_of (files st) to_file \<noteq> None
          then Inl (LinkFailed from_file to_file)
          else Inr (st\<lparr>files := files st @ [(to_file, content)],
                        journal := journal st @ [LinkHard from_file to_file]\<rparr>))"

text \<open>
  Modelled from the spec: \<^verbatim>\<open>FileStorage.delete_folder(folder, recursively=True)\<close>,
  which removes the folder with everything below it.
\<close>

definition delete_folder :: "file_storage \<Rightarrow> path \<Rightarrow> storage_error + file_storage" where
  "delete_folder st folder =
     (if folder \<in> set (folders st) then
        Inr (st\<lparr>folders := filter (\<lambda>d. \<not> prefix folder d) (folders st),
                 files := filter (\<lambda>f. \<not> prefix folder (fst f)) (files st),
                 journal := journal st @ [DeleteFolder folder]\<rparr>)
      else Inl (StoragePathNotFound folder))"

definition EXTRACT_FOLDER :: string where
  "EXTRACT_FOLDER = ''extract''"

text \<open>
  Modelled from the spec: \<^verbatim>\<open>NormalizeStorage.EXTRACTED_FOLDER\<close>, the normalize-input
  folder, missing from the sources ("on commit these move to normalize/...").
\<close>

definition EXTRACTED_FOLDER :: string where
  "EXTRACTED_FOLDER = ''normalize''"

text \<open>
  \<^verbatim>\<open>_get_extract_path\<close> is \<^verbatim>\<open>os.path.join(EXTRACT_FOLDER, extract_id)\<close>. The extract id
  is taken as one path component: \<^verbatim>\<open>create_extract_id\<close> draws it from \<^verbatim>\<open>uniq_id()\<close>,
  and \<^verbatim>\<open>extract\<close> passes no other id. For the empty string, or for a string that holds
  a separator, \<^verbatim>\<open>os.path.join\<close> yields another path than \<^verbatim>\<open>extract/<id>\<close>; such ids
  are outside this model.
\<close>

definition get_extract_path :: "string \<Rightarrow> path" where
  "get_extract_path extract_id = [EXTRACT_FOLDER, extract_id]"

text \<open>
  The \<^verbatim>\<open>for\<close> loop of \<^verbatim>\<open>commit_extract_files\<close> over the listing taken before the
  first iteration. An exception leaves the loop with the storage as it is by then.
\<close>

fun commit_extract_files_loop ::
  "file_storage \<Rightarrow> path \<Rightarrow> bool \<Rightarrow> string list \<Rightarrow> storage_error option \<times> file_storage"
where
  "commit_extract_files_loop st extract_path with_delete [] = (None, st)"
| "commit_extract_files_loop st extract_path with_delete (file # rest) =
     (let from_file = extract_path @ [file];
          to_file = [EXTRACTED_FOLDER, file]
      in case (if with_delete then atomic_rename st from_file to_file
               else link_hard st from_file to_file) of
           Inl e \<Rightarrow> (Some e, st)
         | Inr st' \<Rightarrow> commit_extract_files_loop st' extract_path with_delete rest)"

text \<open>
  \<^verbatim>\<open>commit_extract_files(extract_id, with_delete)\<close>: the exception raised, if any, and
  the storage afterwards.
\<close>

definition commit_extract_files ::
  "file_storage \<Rightarrow> string \<Rightarrow> bool \<Rightarrow> storage_error option \<times> file_storage"
where
  "commit_extract_files st extract_id with_delete =
     (let extract_path = get_extract_path extract_id
      in case list_folder_files st extract_path of
           Inl e \<Rightarrow> (Some e, st)
         | Inr listing \<Rightarrow>
             (case commit_extract_files_loop st extract_path with_delete listing of
                (Some e, st') \<Rightarrow> (Some e, st')
              | (None, st') \<Rightarrow>
                  if with_delete then
                    (case delete_folder st' extract_path of
                       Inl e \<Rightarrow> (Some e, st')
                     | Inr st'' \<Rightarrow> (None, st''))
                  else (None, st')))"


section \<open>Google credentials: the native representation\<close>

text \<open>
  Source: \<^verbatim>\<open>dlt/common/configuration/specs/gcp_client_credentials.py\<close>, classes
  \<^verbatim>\<open>GcpCredentialsBase\<close> and \<^verbatim>\<open>GcpClientCredentials\<close>.

  A JSON value is what \<^verbatim>\<open>json.loads\<close> returns; numbers are kept abstract (type \<open>'n\<close>),
  since they are only stored and compared. An attribute of a credentials instance holds
  a JSON value or, in \<^verbatim>\<open>private_key\<close>, the native service account credentials that
  \<^verbatim>\<open>parse_native_representation\<close> keeps there.
\<close>

datatype 'n json =
    JNull | JBool bool | JNum 'n | JStr string
  | JArray "'n json list" | JObject "(string \<times> 'n json) list"

record service_account_credentials =
  native_project_id :: string
  service_account_email :: string

datatype 'n pyattr = Json "'n json" | Native service_account_credentials

text \<open>The argument of \<^verbatim>\<open>parse_native_representation\<close>: a string, native service account
  credentials, or an object of any other type.\<close>

datatype native_value =
    NativeStr string
  | NativeServiceAccount service_account_credentials
  | NativeOther

datatype credentials_error =
    InvalidGoogleNativeCredentialsType
  | InvalidGoogleServicesJson string
  | JsonEncodeError
  | UpdateError

text \<open>
  The attributes of \<^verbatim>\<open>GcpClientCredentials\<close> in declaration order (those of the base
  class first; \<^verbatim>\<open>credentials_type\<close> is the attribute \<^verbatim>\<open>type\<close>), and the flag
  \<^verbatim>\<open>__is_resolved__\<close>.
\<close>

record 'n gcp_client_credentials =
  token_uri :: "'n pyattr"
  auth_uri :: "'n pyattr"
  project_id :: "'n pyattr"
  location :: "'n pyattr"
  http_timeout :: "'n pyattr"
  file_upload_timeout :: "'n pyattr"
  retry_deadline :: "'n pyattr"
  private_key :: "'n pyattr"
  client_email :: "'n pyattr"
  credentials_type :: "'n pyattr"
  dunder_is_resolved :: bool

text \<open>
  \<^verbatim>\<open>GcpClientCredentials()\<close> with the declared defaults; the three arguments are the
  numbers \<^verbatim>\<open>15.0\<close>, \<^verbatim>\<open>30 * 60.0\<close> and \<^verbatim>\<open>60\<close>.
\<close>

definition new_gcp_client_credentials :: "'n \<Rightarrow> 'n \<Rightarrow> 'n \<Rightarrow> 'n gcp_client_credentials" where
  "new_gcp_client_credentials n15 n1800 n60 =
     \<lparr>token_uri = Json (JStr ''https://oauth2.googleapis.com/token''),
      auth_uri = Json (JStr ''https://accounts.google.com/o/oauth2/auth''),
      project_id = Json JNull,
      location = Json (JStr ''US''),
      http_timeout = Json (JNum n15),
      file_upload_timeout = Json (JNum n1800),
      retry_deadline = Json (JNum n60),
      private_key = Json JNull,
      client_email = Json JNull,
      credentials_type = Json (JStr ''service_account''),
      dunder_is_resolved = False\<rparr>"

text \<open>
  Modelled from the spec: the mapping interface that \<^verbatim>\<open>BaseConfiguration\<close> gives every
  configuration (\<^verbatim>\<open>dict(self)\<close>, \<^verbatim>\<open>self.update\<close>, \<^verbatim>\<open>is_partial\<close>), missing from the
  sources. It is the mapping over the declared attributes: \<^verbatim>\<open>dict(self)\<close> lists them
  with their values, \<^verbatim>\<open>self.update(info)\<close> assigns the entries of \<^verbatim>\<open>info\<close> in order and
  skips keys that are not attributes, and "a configuration is partial if any required
  field is unset" (none of the hints here is optional).
\<close>

definition credentials_dict :: "'n gcp_client_credentials \<Rightarrow> (string \<times> 'n pyattr) list" where
  "credentials_dict c =
     [(''token_uri'', token_uri c), (''auth_uri'', auth_uri c), (''project_id'', project_id c),
      (''location'', location c), (''http_timeout'', http_timeout c),
      (''file_upload_timeout'', file_upload_timeout c), (''retry_deadline'', retry_deadline c),
      (''private_key'', private_key c), (''client_email'', client_email c),
      (''type'', credentials_type c)]"

definition set_attribute ::
  "'n gcp_client_credentials \<Rightarrow> string \<Rightarrow> 'n pyattr \<Rightarrow> 'n gcp_client_credentials"
where
  "set_attribute c key v =
     (if key = ''token_uri'' then c\<lparr>token_uri := v\<rparr>
      else if key = ''auth_uri'' then c\<lparr>auth_uri := v\<rparr>
      else if key = ''project_id'' then c\<lparr>project_id := v\<rparr>
      else if key = ''location'' then c\<lparr>location := v\<rparr>
      else if key = ''http_timeout'' then c\<lparr>http_timeout := v\<rparr>
      else if key = ''file_upload_timeout'' then c\<lparr>file_upload_timeout := v\<rparr>
      else if key = ''retry_deadline'' then c\<lparr>retry_deadline := v\<rparr>
      else if key = ''private_key'' then c\<lparr>private_key := v\<rparr>
      else if key = ''client_email'' then c\<lparr>client_email := v\<rparr>
      else if key = ''type'' then c\<lparr>credentials_type := v\<rparr>
      else c)"

definition credentials_update ::
  "'n gcp_client_credentials \<Rightarrow> (string \<times> 'n pyattr) list \<Rightarrow> 'n gcp_client_credentials"
where
  "credentials_update c info = fold (\<lambda>kv c'. set_attribute c' (fst kv) (snd kv)) info c"

definition is_partial :: "'n gcp_client_credentials \<Rightarrow> bool" where
  "is_partial c = list_ex (\<lambda>kv. snd kv = Json JNull) (credentials_dict c)"

text \<open>\<^verbatim>\<open>GcpCredentialsBase._from_info_dict\<close>.\<close>

definition from_info_dict ::
  "'n gcp_client_credentials \<Rightarrow> (string \<times> 'n pyattr) list \<Rightarrow> 'n gcp_client_credentials"
where
  "from_info_dict c info =
     (let c' = credentials_update c info in c'\<lparr>dunder_is_resolved := \<not> is_partial c'\<rparr>)"

text \<open>
  The JSON library (\<^verbatim>\<open>dlt.common.json\<close>) is not among the sources. \<^verbatim>\<open>json.dumps\<close> and
  \<^verbatim>\<open>json.loads\<close> are parameters: \<open>dumps\<close> answers with a string or raises, \<open>loads\<close>
  answers with a JSON value or raises. When the value loaded is not an object,
  \<^verbatim>\<open>self.update\<close> iterates over it; \<open>pairs\<close> says which entries that iteration
  assigns, or that it raises.
\<close>

record 'n json_library =
  dumps :: "(string \<times> 'n pyattr) list \<Rightarrow> string option"
  loads :: "string \<Rightarrow> 'n json option"
  pairs :: "'n json \<Rightarrow> (string \<times> 'n json) list option"

text \<open>\<^verbatim>\<open>GcpCredentialsBase.to_native_representation\<close>: \<^verbatim>\<open>json.dumps(dict(self))\<close>.\<close>

definition to_native_representation ::
  "'n json_library \<Rightarrow> 'n gcp_client_credentials \<Rightarrow> credentials_error + string"
where
  "to_native_representation lib c =
     (case dumps lib (credentials_dict c) of None \<Rightarrow> Inl JsonEncodeError | Some s \<Rightarrow> Inr s)"

text \<open>
  \<^verbatim>\<open>GcpClientCredentials.parse_native_representation\<close>. Native service account
  credentials give the project id, the client email, and themselves as the private key;
  anything else must be a string that parses as JSON.
\<close>

definition gcp_parse_native_representation ::
  "'n json_library \<Rightarrow> 'n gcp_client_credentials \<Rightarrow> native_value
     \<Rightarrow> credentials_error + 'n gcp_client_credentials"
where
  "gcp_parse_native_representation lib c native_value =
     (case native_value of
        NativeServiceAccount n \<Rightarrow>
          Inr (from_info_dict c
                 [(''project_id'', Json (JStr (native_project_id n))),
                  (''client_email'', Json (JStr (service_account_email n))),
                  (''private_key'', Native n)])
      | NativeOther \<Rightarrow> Inl InvalidGoogleNativeCredentialsType
      | NativeStr s \<Rightarrow>
          (case loads lib s of
             None \<Rightarrow> Inl (InvalidGoogleServicesJson s)
           | Some loaded \<Rightarrow>
               (case (case loaded of JObject service_dict \<Rightarrow> Some service_dict
                      | _ \<Rightarrow> pairs lib loaded) of
                  None \<Rightarrow> Inl UpdateError
                | Some service_dict \<Rightarrow>
                    Inr (from_info_dict c (map (\<lambda>kv. (fst kv, Json (snd kv))) service_dict)))))"


section \<open>Auxiliary notions for stating the theorems\<close>

text \<open>The elements of a list up to and including the first one that satisfies \<open>P\<close>.\<close>

fun take_until :: "('a \<Rightarrow> bool) \<Rightarrow> 'a list \<Rightarrow> 'a list" where
  "take_until P [] = []"
| "take_until P (x # xs) = (if P x then [x] else x # take_until P xs)"

text \<open>
  The sections one iteration of the loop passes to the provider, and the sequence of
  sections a provider is asked for while nothing is found.
\<close>

definition full_sections ::
  "'v config_provider \<Rightarrow> string option \<Rightarrow> string option \<Rightarrow> string list \<Rightarrow> string list"
where
  "full_sections provider pipeline_name config_section ns =
     (if (truthy pipeline_name \<or> truthy config_section) \<and> supports_sections provider
      then opt_section pipeline_name @ ns @ opt_section config_section else ns)"

definition provider_plan ::
  "'v config_provider \<Rightarrow> string option \<Rightarrow> string option \<Rightarrow> string list \<Rightarrow> string list
     \<Rightarrow> string list list"
where
  "provider_plan provider pn cs use ems =
     (if supports_sections provider
      then map (full_sections provider pn cs) (rev (prefixes (use @ ems)))
      else if truthy pn then [] else [[]])"

definition providers_plan ::
  "'v config_provider list \<Rightarrow> string option \<Rightarrow> string option \<Rightarrow> string list \<Rightarrow> string list
     \<Rightarrow> ('v config_provider \<times> string list) list"
where
  "providers_plan ps pn cs use ems =
     concat (map (\<lambda>provider. map (Pair provider) (provider_plan provider pn cs use ems)) ps)"

definition yields :: "string \<Rightarrow> type_hint \<Rightarrow> 'v config_provider \<times> string list \<Rightarrow> bool" where
  "yields key hint pr = (fst (get_value (fst pr) key hint (snd pr)) \<noteq> None)"

definition call_of :: "string \<Rightarrow> 'v config_provider \<times> string list \<Rightarrow> probe" where
  "call_of key pr = (name (fst pr), key, snd pr)"


text \<open>
  The attributes of a credentials instance as a JSON object, when each of them holds a
  JSON value.
\<close>

definition json_attributes :: "'n gcp_client_credentials \<Rightarrow> (string \<times> 'n json) list option" where
  "json_attributes c =
     (if list_all (\<lambda>kv. case snd kv of Json _ \<Rightarrow> True | Native _ \<Rightarrow> False) (credentials_dict c)
      then Some (map (\<lambda>kv. (fst kv, case snd kv of Json v \<Rightarrow> v | Native _ \<Rightarrow> JNull))
                   (credentials_dict c))
      else None)"


section \<open>Example inputs\<close>

definition plain_hint :: type_hint where
  "plain_hint = TypeHint False False False ValueHint []"

definition secret_hint :: type_hint where
  "secret_hint = TypeHint True False False ValueHint []"

text \<open>A provider with sections and secrets that holds one value, under the sections \<^verbatim>\<open>("p",)\<close>.\<close>

definition env_provider :: "string config_provider" where
  "env_provider =
     \<lparr>name = ''env'', supports_sections = True, supports_secrets = True,
      get_value = (\<lambda>key hint ns. (if ns = [''p''] then Some ''v'' else None, key))\<rparr>"

definition env_context :: "string resolver_context" where
  "env_context =
     \<lparr>providers = [env_provider], context_provider = (\<lambda>key hint. (None, key)),
      context_pipeline_name = Some ''p'', context_sections = []\<rparr>"

text \<open>
  A provider without secret support that holds \<^verbatim>\<open>PASSWORD=p\<close> (scenario 2 of the
  specification).
\<close>

definition file_provider :: "string config_provider" where
  "file_provider =
     \<lparr>name = ''file'', supports_sections = False, supports_secrets = False,
      get_value = (\<lambda>key hint ns.
         (if key = ''password'' \<and> ns = [] then Some ''p'' else None, ''PASSWORD''))\<rparr>"

definition file_context :: "string resolver_context" where
  "file_context =
     \<lparr>providers = [file_provider], context_provider = (\<lambda>key hint. (None, key)),
      context_pipeline_name = None, context_sections = []\<rparr>"

text \<open>
  A provider with sections and without secret support that holds \<^verbatim>\<open>password\<close> under the
  sections \<^verbatim>\<open>("db",)\<close>, behind a provider with secret support that holds nothing.
\<close>

definition ini_provider :: "string config_provider" where
  "ini_provider =
     \<lparr>name = ''ini'', supports_sections = True, supports_secrets = False,
      get_value = (\<lambda>key hint ns.
         (if key = ''password'' \<and> ns = [''db''] then Some ''p'' else None,
          concat (map (\<lambda>s. s @ ''.'') ns) @ key))\<rparr>"

definition vault_provider :: "string config_provider" where
  "vault_provider =
     \<lparr>name = ''vault'', supports_sections = True, supports_secrets = True,
      get_value = (\<lambda>key hint ns. (None, concat (map (\<lambda>s. s @ ''.'') ns) @ key))\<rparr>"

definition ini_context :: "string resolver_context" where
  "ini_context =
     \<lparr>providers = [vault_provider, ini_provider], context_provider = (\<lambda>key hint. (None, key)),
      context_pipeline_name = Some ''p'', context_sections = []\<rparr>"


text \<open>
  The schema, rows and table updates of
  \<^verbatim>\<open>tests/common/schema/test_contract_mode_functions.py\<close>.
\<close>

definition test_columns :: "(string \<times> column_schema) list" where
  "test_columns =
     [(''column_1'', \<lparr>column_name = ''column_1'', column_data_type = Some ''string'', variant = False\<rparr>),
      (''column_2'', \<lparr>column_name = ''column_2'', column_data_type = Some ''number'', variant = False\<rparr>)]"

definition incomplete_columns :: "(string \<times> column_schema) list" where
  "incomplete_columns =
     [(''incomplete_column_1'',
         \<lparr>column_name = ''incomplete_column_1'', column_data_type = None, variant = False\<rparr>),
      (''incomplete_column_2'',
         \<lparr>column_name = ''incomplete_column_2'', column_data_type = None, variant = False\<rparr>)]"

definition tables_table :: table_schema where
  "tables_table = \<lparr>table_name = ''tables'', parent = None, table_columns = test_columns,
                     schema_contract = None\<rparr>"

definition child_table :: table_schema where
  "child_table = \<lparr>table_name = ''child_table'', parent = Some ''tables'',
                    table_columns = test_columns, schema_contract = None\<rparr>"

definition incomplete_table :: table_schema where
  "incomplete_table = \<lparr>table_name = ''incomplete_table'', parent = None,
                         table_columns = incomplete_columns, schema_contract = None\<rparr>"

definition mixed_table :: table_schema where
  "mixed_table = \<lparr>table_name = ''mixed_table'', parent = None,
                    table_columns = incomplete_columns @ test_columns, schema_contract = None\<rparr>"

definition get_schema :: schema where
  "get_schema =
     \<lparr>schema_name = ''event'',
      schema_tables = [(''tables'', tables_table), (''child_table'', child_table),
                       (''incomplete_table'', incomplete_table), (''mixed_table'', mixed_table)],
      settings_schema_contract = None\<rparr>"

text \<open>The schema of the "mixed settings" case of \<^verbatim>\<open>test_resolve_contract_settings\<close>.\<close>

definition mixed_settings_schema :: schema where
  "mixed_settings_schema =
     get_schema
       \<lparr>schema_tables :=
          [(''tables'',
             tables_table\<lparr>schema_contract := Some (Mapping (Some evolve) (Some discard_value) None)\<rparr>),
           (''child_table'', child_table),
           (''incomplete_table'', incomplete_table), (''mixed_table'', mixed_table)],
        settings_schema_contract := Some (Atom freeze)\<rparr>"

definition test_data :: "(string \<times> pyobj) list" where
  "test_data = [(''column_1'', PStr ''some string''), (''column_2'', PInt 123)]"

definition new_column_update :: table_schema where
  "new_column_update =
     \<lparr>table_name = ''tables'', parent = None,
      table_columns =
        [(''new_column'',
            \<lparr>column_name = ''new_column'', column_data_type = Some ''string'', variant = False\<rparr>)],
      schema_contract = None\<rparr>"

definition incomplete_column_update :: table_schema where
  "incomplete_column_update =
     \<lparr>table_name = ''mixed_table'', parent = None,
      table_columns =
        [(''incomplete_column_1'',
            \<lparr>column_name = ''incomplete_column_1'', column_data_type = Some ''string'',
             variant = False\<rparr>)],
      schema_contract = None\<rparr>"

definition variant_update :: table_schema where
  "variant_update =
     \<lparr>table_name = ''tables'', parent = None,
      table_columns =
        [(''column_2_variant'',
            \<lparr>column_name = ''column_2_variant'', column_data_type = Some ''number'',
             variant = True\<rparr>)],
      schema_contract = None\<rparr>"


text \<open>A storage with two staged files of the extract \<^verbatim>\<open>x1\<close> and one file already in the normalize-input folder.\<close>

definition staged_storage :: file_storage where
  "staged_storage =
     \<lparr>folders = [[''extract''], [''extract'', ''x1''], [''normalize'']],
      files = [([''extract'', ''x1'', ''event.orders.w1''], ''id=1''),
               ([''normalize'', ''event.users.w0''], ''id=7''),
               ([''extract'', ''x1'', ''event.users.w2''], ''id=2'')],
      journal = []\<rparr>"


text \<open>
  A configuration class with the section \<^verbatim>\<open>db\<close> and one field \<^verbatim>\<open>host\<close>, its base
  class, and a provider that holds \<^verbatim>\<open>host\<close> under the section \<^verbatim>\<open>db\<close>.
\<close>

definition db_class :: class_spec where
  "db_class =
     \<lparr>class_section = Some ''db'', is_credentials = False,
      resolvable_fields = [(''host'', TypeHint False False False ValueHint [])],
      new_instance = Config ''DbConfig'' [(''host'', None)] False None,
      mro = [''DbConfig'', ''BaseConfiguration''],
      parse_native_representation = (\<lambda>c v. (Some NotImplementedError, c)),
      on_resolved = Some (\<lambda>c. (None, c)),
      on_partial = None\<rparr>"

definition base_class :: class_spec where
  "base_class =
     \<lparr>class_section = None, is_credentials = False,
      resolvable_fields = [],
      new_instance = Config ''BaseConfiguration'' [] False None,
      mro = [''BaseConfiguration''],
      parse_native_representation = (\<lambda>c v. (Some NotImplementedError, c)),
      on_resolved = None,
      on_partial = None\<rparr>"

definition db_provider :: "pyvalue config_provider" where
  "db_provider =
     \<lparr>name = ''env'', supports_sections = True, supports_secrets = True,
      get_value = (\<lambda>key hint ns.
         (if key = ''host'' \<and> ns = [''db''] then Some (VStr ''h1'') else None, key))\<rparr>"

definition db_env :: resolver_env where
  "db_env =
     \<lparr>container = \<lparr>providers = [db_provider], context_provider = (\<lambda>key hint. (None, key)),
                    context_pipeline_name = None, context_sections = []\<rparr>,
      classes = (\<lambda>n. if n = ''DbConfig'' then db_class else base_class),
      deserialize_value = (\<lambda>key v hint. Inr v)\<rparr>"


text \<open>
  A service account, the credentials instance that parsing it as a native value gives,
  an instance whose attributes are all strings and numbers, and a JSON library that
  knows one document.
\<close>

definition example_account :: service_account_credentials where
  "example_account = \<lparr>native_project_id = ''proj'', service_account_email = ''sa@proj''\<rparr>"

definition native_credentials :: "int gcp_client_credentials" where
  "native_credentials =
     (new_gcp_client_credentials 15 1800 60)
       \<lparr>project_id := Json (JStr ''proj''), private_key := Native example_account,
        client_email := Json (JStr ''sa@proj''), dunder_is_resolved := True\<rparr>"

definition json_credentials :: "int gcp_client_credentials" where
  "json_credentials =
     (new_gcp_client_credentials 15 1800 60)
       \<lparr>project_id := Json (JStr ''proj''), private_key := Json (JStr ''KEY''),
        client_email := Json (JStr ''sa@proj''), dunder_is_resolved := True\<rparr>"

definition one_document_library :: "int json_library" where
  "one_document_library =
     \<lparr>dumps = (\<lambda>d. if d = credentials_dict json_credentials then Some ''doc'' else None),
      loads = (\<lambda>s. if s = ''doc''
                    then Some (JObject (map (\<lambda>kv. (fst kv, case snd kv of Json v \<Rightarrow> v
                                                             | Native _ \<Rightarrow> JNull))
                                          (credentials_dict json_credentials)))
                    else None),
      pairs = (\<lambda>v. None)\<rparr>"


section \<open>Theorems\<close>

subsection \<open>Configuration resolver: the calls made while looking a value up\<close>

declare resolve_single_provider_value_loop.simps [simp del]

lemma take_until_append:
  "take_until P (xs @ ys) = (if \<exists>x\<in>set xs. P x then take_until P xs else xs @ take_until P ys)"
  by (induction xs) auto

lemma take_until_map: "take_until P (map f xs) = map f (take_until (P \<circ> f) xs)"
  by (induction xs) auto

lemma loop_calls:
  "snd (resolve_single_provider_value_loop provider key hint pn cs ns traces) =
     map (\<lambda>ns'. (name provider, key, full_sections provider pn cs ns'))
       (take_until (\<lambda>ns'. fst (get_value provider key hint (full_sections provider pn cs ns')) \<noteq> None)
          (rev (prefixes ns)))"
proof (induction ns arbitrary: traces rule: rev_induct)
  case Nil
  show ?case
    by (subst resolve_single_provider_value_loop.simps)
       (simp add: Let_def full_sections_def)
next
  case (snoc s ns)
  show ?case
    by (subst resolve_single_provider_value_loop.simps)
       (simp add: Let_def case_prod_beta snoc.IH full_sections_def [symmetric])
qed

lemma loop_none:
  "(\<exists>tr. fst (resolve_single_provider_value_loop provider key hint pn cs ns traces) = Inr (None, tr))
   \<longleftrightarrow> (\<forall>ns'\<in>set (prefixes ns). fst (get_value provider key hint (full_sections provider pn cs ns')) = None)"
proof (induction ns arbitrary: traces rule: rev_induct)
  case Nil
  show ?case
    by (subst resolve_single_provider_value_loop.simps)
       (auto simp add: Let_def full_sections_def)
next
  case (snoc s ns)
  show ?case
    by (subst resolve_single_provider_value_loop.simps)
       (auto simp add: Let_def case_prod_beta snoc.IH full_sections_def [symmetric])
qed


lemma shared_sections_simps:
  "snd (shared_sections r) = snd r"
  "(\<exists>tr. fst (shared_sections r) = Inr (v, tr)) \<longleftrightarrow> (\<exists>tr. fst r = Inr (v, tr))"
  "fst (shared_sections r) = Inl e \<longleftrightarrow> fst r = Inl e"
  by (cases r; cases "fst r"; auto simp: shared_sections_def)+

text \<open>
  Without pipeline name and configuration section the traces of one provider all show the
  sections of its last call, while each keeps the effective key of its own call.
\<close>

lemma traces_share_the_sections_list:
  "resolve_single_provider_value vault_provider ''k'' plain_hint None None [''a'', ''b''] []
     = (Inr (None,
          [LookupTrace ''vault'' [] ''a.b.k'' None, LookupTrace ''vault'' [] ''a.k'' None,
           LookupTrace ''vault'' [] ''k'' None]),
        [(''vault'', ''k'', [''a'', ''b'']), (''vault'', ''k'', [''a'']), (''vault'', ''k'', [])])
   \<and> resolve_single_provider_value vault_provider ''k'' plain_hint None (Some ''c'') [''a'', ''b''] []
     = (Inr (None,
          [LookupTrace ''vault'' [''a'', ''b'', ''c''] ''a.b.c.k'' None,
           LookupTrace ''vault'' [''a'', ''c''] ''a.c.k'' None,
           LookupTrace ''vault'' [''c''] ''c.k'' None]),
        [(''vault'', ''k'', [''a'', ''b'', ''c'']), (''vault'', ''k'', [''a'', ''c'']),
         (''vault'', ''k'', [''c''])])"
  by (simp add: vault_provider_def plain_hint_def resolve_single_provider_value_def
        resolve_single_provider_value_loop.simps shared_sections_def with_sections_def
        truthy_def opt_section_def Let_def)

lemma provider_calls:
  "snd (resolve_single_provider_value provider key hint pn cs use ems) =
     map (\<lambda>ns. (name provider, key, ns))
       (take_until (\<lambda>ns. fst (get_value provider key hint ns) \<noteq> None)
          (provider_plan provider pn cs use ems))"
  by (simp add: resolve_single_provider_value_def provider_plan_def loop_calls take_until_map
        comp_def full_sections_def shared_sections_simps)

lemma provider_none:
  "(\<exists>tr. fst (resolve_single_provider_value provider key hint pn cs use ems) = Inr (None, tr))
   \<longleftrightarrow> (\<forall>ns\<in>set (provider_plan provider pn cs use ems). fst (get_value provider key hint ns) = None)"
  by (simp add: resolve_single_provider_value_def provider_plan_def loop_none full_sections_def
        shared_sections_simps)

lemma providers_plan_simps:
  "providers_plan [] pn cs use ems = []"
  "providers_plan (p # ps) pn cs use ems =
     map (Pair p) (provider_plan p pn cs use ems) @ providers_plan ps pn cs use ems"
  by (simp_all add: providers_plan_def)

lemma take_until_all: "\<forall>x\<in>set xs. \<not> P x \<Longrightarrow> take_until P xs = xs"
  by (induction xs) auto

lemma look_loop_calls_none:
  "snd (look_sections_loop ps latest key hint pn cs use ems traces) =
     map (call_of key) (take_until (yields key hint) (providers_plan ps pn cs use ems))
   \<and> (latest = Some None \<or> ps \<noteq> [] \<longrightarrow>
       ((\<exists>tr. fst (look_sections_loop ps latest key hint pn cs use ems traces) = Inr (None, tr))
        \<longleftrightarrow> (\<forall>pr\<in>set (providers_plan ps pn cs use ems). \<not> yields key hint pr)))"
proof (induction ps arbitrary: latest traces)
  case Nil
  show ?case by (auto simp: providers_plan_simps split: option.splits)
next
  case (Cons p ps)
  let ?r = "resolve_single_provider_value p key hint pn cs use ems"
  let ?plan = "provider_plan p pn cs use ems"
  have calls: "snd ?r = map (call_of key) (take_until (yields key hint) (map (Pair p) ?plan))"
    by (simp add: provider_calls take_until_map comp_def yields_def call_of_def)
  have none: "(\<exists>tr. fst ?r = Inr (None, tr)) \<longleftrightarrow> (\<forall>pr\<in>set (map (Pair p) ?plan). \<not> yields key hint pr)"
    by (simp add: provider_none yields_def)
  show ?case
  proof (cases "\<exists>tr. fst ?r = Inr (None, tr)")
    case True
    then obtain tr where tr: "fst ?r = Inr (None, tr)" by blast
    then have r: "?r = (Inr (None, tr), snd ?r)" by (metis prod.collapse)
    have nohit: "\<forall>pr\<in>set (map (Pair p) ?plan). \<not> yields key hint pr"
      using none True by blast
    have step: "look_sections_loop (p # ps) latest key hint pn cs use ems traces =
        (fst (look_sections_loop ps (Some None) key hint pn cs use ems (traces @ tr)),
         snd ?r @ snd (look_sections_loop ps (Some None) key hint pn cs use ems (traces @ tr)))"
      by (subst look_sections_loop.simps, subst r) (simp add: case_prod_beta)
    show ?thesis
      using nohit Cons.IH [of "Some None" "traces @ tr"]
      by (auto simp add: step calls providers_plan_simps take_until_append take_until_all
            simp del: look_sections_loop.simps)
  next
    case False
    then have hit: "\<exists>pr\<in>set (map (Pair p) ?plan). yields key hint pr"
      using none by blast
    have step: "look_sections_loop (p # ps) latest key hint pn cs use ems traces =
        (case fst ?r of Inl e \<Rightarrow> Inl e | Inr (value, tr) \<Rightarrow> Inr (value, traces @ tr), snd ?r)"
      using False
      by (cases ?r; cases "fst ?r") (auto split: sum.splits)
    have "\<not> (\<exists>tr. fst (look_sections_loop (p # ps) latest key hint pn cs use ems traces) = Inr (None, tr))"
      using False by (auto simp: step simp del: look_sections_loop.simps split: sum.splits)
    then show ?thesis
      using hit
      by (auto simp add: step calls providers_plan_simps take_until_append
            simp del: look_sections_loop.simps)
  qed
qed


lemma look_calls_none:
  "snd (look_sections ctx key hint pn cs es ems traces) =
     map (call_of key) (take_until (yields key hint)
        (providers_plan (providers ctx) pn cs (if es \<noteq> [] then es else context_sections ctx) ems))"
  "providers ctx \<noteq> [] \<Longrightarrow>
     (\<exists>tr. fst (look_sections ctx key hint pn cs es ems traces) = Inr (None, tr))
      \<longleftrightarrow> (\<forall>pr\<in>set (providers_plan (providers ctx) pn cs
                 (if es \<noteq> [] then es else context_sections ctx) ems). \<not> yields key hint pr)"
  "providers ctx = [] \<Longrightarrow>
     look_sections ctx key hint pn cs es ems traces = (Inl (UnboundLocalError ''value''), [])"
  using look_loop_calls_none [of "providers ctx" None key hint pn cs _ ems traces]
  by (simp_all add: look_sections_def)

lemma value_calls:
  "snd (resolve_single_value ctx key hint ValueHint config_section es ems) =
     (let cs = fst (apply_embedded_sections_to_config_sections config_section ems);
          ems' = snd (apply_embedded_sections_to_config_sections config_section ems);
          use = (if es \<noteq> [] then es else context_sections ctx)
      in map (call_of key) (take_until (yields key hint)
           ((if truthy (context_pipeline_name ctx)
             then providers_plan (providers ctx) (context_pipeline_name ctx) cs use ems' else [])
            @ providers_plan (providers ctx) None cs use ems')))"
proof -
  define cs where "cs = fst (apply_embedded_sections_to_config_sections config_section ems)"
  define ems' where "ems' = snd (apply_embedded_sections_to_config_sections config_section ems)"
  define use where "use = (if es \<noteq> [] then es else context_sections ctx)"
  define pn where "pn = context_pipeline_name ctx"
  let ?p1 = "look_sections ctx key hint pn cs es ems' []"
  let ?plan1 = "providers_plan (providers ctx) pn cs use ems'"
  let ?plan2 = "providers_plan (providers ctx) None cs use ems'"
  have unfold: "resolve_single_value ctx key hint ValueHint config_section es ems =
     (case (if truthy pn then ?p1 else (Inr (None, []), [])) of
        (Inl e, calls) \<Rightarrow> (Inl e, calls)
      | (Inr (value, traces), calls) \<Rightarrow>
          if value = None then
            (case look_sections ctx key hint None cs es ems' traces of
               (r, calls') \<Rightarrow> (r, calls @ calls'))
          else (Inr (value, traces), calls))"
    unfolding cs_def ems'_def pn_def
    by (simp add: resolve_single_value_def is_context_inner_hint_def
          is_base_configuration_inner_hint_def Let_def)
  have goal: "snd (resolve_single_value ctx key hint ValueHint config_section es ems) =
      map (call_of key) (take_until (yields key hint)
           ((if truthy pn then ?plan1 else []) @ ?plan2))"
  proof (cases "truthy pn")
    case False
    then show ?thesis
      by (simp add: unfold case_prod_beta look_calls_none(1) use_def)
  next
    case True
    show ?thesis
    proof (cases "providers ctx = []")
      case True
      with \<open>truthy pn\<close> show ?thesis
        by (simp add: unfold look_calls_none(3) providers_plan_simps)
    next
      case False
      note ne = this
      show ?thesis
      proof (cases "\<exists>tr. fst ?p1 = Inr (None, tr)")
        case True
        then obtain tr where "fst ?p1 = Inr (None, tr)" by blast
        then have p1: "?p1 = (Inr (None, tr), snd ?p1)" by (metis prod.collapse)
        have nohit: "\<forall>pr\<in>set ?plan1. \<not> yields key hint pr"
          using look_calls_none(2) [OF ne, of key hint pn cs es ems' "[]"] True
          by (simp add: use_def)
        have "resolve_single_value ctx key hint ValueHint config_section es ems =
            (fst (look_sections ctx key hint None cs es ems' tr),
             snd ?p1 @ snd (look_sections ctx key hint None cs es ems' tr))"
          using \<open>truthy pn\<close> by (subst unfold, simp, subst p1) (simp add: case_prod_beta)
        then show ?thesis
          using nohit \<open>truthy pn\<close>
          by (simp add: look_calls_none(1) use_def [symmetric] take_until_append take_until_all)
      next
        case False
        then have hit: "\<exists>pr\<in>set ?plan1. yields key hint pr"
          using look_calls_none(2) [OF ne, of key hint pn cs es ems' "[]"]
          by (simp add: use_def)
        have "snd (resolve_single_value ctx key hint ValueHint config_section es ems) = snd ?p1"
          using False \<open>truthy pn\<close>
          by (cases ?p1; cases "fst ?p1") (auto simp: unfold split: sum.splits)
        then show ?thesis
          using hit \<open>truthy pn\<close>
          by (simp add: look_calls_none(1) use_def [symmetric] take_until_append)
      qed
    qed
  qed
  show ?thesis
    using goal by (simp add: cs_def ems'_def use_def pn_def Let_def)
qed


lemma loop_accepts:
  "fst (resolve_single_provider_value_loop provider key hint pn cs ns traces) = Inr (Some v, tr)
   \<Longrightarrow> (supports_secrets provider \<or> \<not> is_secret_hint hint)
       \<and> (\<exists>ns'. fst (get_value provider key hint ns') = Some v)"
proof (induction ns arbitrary: traces rule: rev_induct)
  case Nil
  then show ?case
    by (subst (asm) resolve_single_provider_value_loop.simps)
       (auto simp add: Let_def split: if_splits)
next
  case (snoc s ns)
  from snoc.prems show ?case
    by (subst (asm) resolve_single_provider_value_loop.simps)
       (auto simp add: Let_def case_prod_beta split: if_splits dest: snoc.IH)
qed

lemma loop_secret:
  assumes "\<not> supports_secrets provider" "is_secret_hint hint"
  shows "case resolve_single_provider_value_loop provider key hint pn cs ns traces of
           (Inr (value, tr), calls) \<Rightarrow>
              value = None \<and> tr = traces
              \<and> list_all (\<lambda>c. fst (get_value provider key hint (snd (snd c))) = None) calls
         | (Inl e, calls) \<Rightarrow>
              calls \<noteq> []
              \<and> fst (get_value provider key hint (snd (snd (last calls)))) \<noteq> None
              \<and> e = ValueNotSecretException (name provider)
                      (snd (get_value provider key hint (snd (snd (last calls)))))"
proof (induction ns arbitrary: traces rule: rev_induct)
  case Nil
  show ?case using assms
    by (subst resolve_single_provider_value_loop.simps)
       (auto simp add: Let_def split: if_splits)
next
  case (snoc s ns)
  show ?case using assms snoc.IH [of traces]
    by (subst resolve_single_provider_value_loop.simps)
       (auto simp add: Let_def split: if_splits prod.splits sum.splits)
qed


lemma find_map_list: "find P (map f xs) = map_option f (find (\<lambda>x. P (f x)) xs)"
  by (induction xs) auto

lemma find_append_list:
  "find P (xs @ ys) = (case find P xs of None \<Rightarrow> find P ys | Some x \<Rightarrow> Some x)"
  by (induction xs) auto

lemma shared_Inr_D:
  "fst (shared_sections r) = Inr (v, tr) \<Longrightarrow> \<exists>tr'. fst r = Inr (v, tr')"
  using shared_sections_simps(2) [of r v] by blast

lemma provider_accepts:
  "fst (resolve_single_provider_value provider key hint pn cs use ems) = Inr (Some v, tr)
   \<Longrightarrow> (supports_secrets provider \<or> \<not> is_secret_hint hint)
       \<and> (\<exists>ns. fst (get_value provider key hint ns) = Some v)"
  by (auto simp: resolve_single_provider_value_def split: if_splits
        dest: loop_accepts dest!: shared_Inr_D)

lemma look_loop_accepts:
  "fst (look_sections_loop ps latest key hint pn cs use ems traces) = Inr (Some v, tr)
   \<Longrightarrow> latest = Some (Some v)
       \<or> (\<exists>provider\<in>set ps. (supports_secrets provider \<or> \<not> is_secret_hint hint)
             \<and> (\<exists>ns. fst (get_value provider key hint ns) = Some v))"
proof (induction ps arbitrary: latest traces)
  case Nil
  then show ?case by (auto split: option.splits)
next
  case (Cons p ps)
  let ?r = "resolve_single_provider_value p key hint pn cs use ems"
  show ?case
  proof (cases "fst ?r")
    case (Inl e)
    with Cons.prems show ?thesis by (cases ?r) auto
  next
    case (Inr b)
    show ?thesis
    proof (cases "fst b")
      case None
      with Inr Cons.prems
      have "fst (look_sections_loop ps (Some None) key hint pn cs use ems (traces @ snd b))
              = Inr (Some v, tr)"
        by (cases ?r; cases b) (auto simp: case_prod_beta)
      from Cons.IH [OF this] show ?thesis by auto
    next
      case (Some w)
      with Inr Cons.prems have "w = v"
        by (cases ?r; cases b) auto
      with Some Inr have "fst ?r = Inr (Some v, snd b)"
        by (cases b) auto
      from provider_accepts [OF this] show ?thesis by auto
    qed
  qed
qed

lemma value_accepts:
  assumes "fst (resolve_single_value ctx key hint ValueHint config_section es ems) = Inr (Some v, tr)"
  shows "\<exists>provider\<in>set (providers ctx). (supports_secrets provider \<or> \<not> is_secret_hint hint)
             \<and> (\<exists>ns. fst (get_value provider key hint ns) = Some v)"
proof -
  define cs where "cs = fst (apply_embedded_sections_to_config_sections config_section ems)"
  define ems' where "ems' = snd (apply_embedded_sections_to_config_sections config_section ems)"
  define pn where "pn = context_pipeline_name ctx"
  let ?p1 = "if truthy pn then look_sections ctx key hint pn cs es ems' [] else (Inr (None, []), [])"
  have unfold: "resolve_single_value ctx key hint ValueHint config_section es ems =
     (case ?p1 of
        (Inl e, calls) \<Rightarrow> (Inl e, calls)
      | (Inr (value, traces), calls) \<Rightarrow>
          if value = None then
            (case look_sections ctx key hint None cs es ems' traces of
               (r, calls') \<Rightarrow> (r, calls @ calls'))
          else (Inr (value, traces), calls))"
    unfolding cs_def ems'_def pn_def
    by (simp add: resolve_single_value_def is_context_inner_hint_def
          is_base_configuration_inner_hint_def Let_def)
  have "(\<exists>t. fst (look_sections ctx key hint pn cs es ems' []) = Inr (Some v, t))
      \<or> (\<exists>t. fst (look_sections ctx key hint None cs es ems' t) = Inr (Some v, tr))"
    using assms unfolding unfold
    by (auto simp: case_prod_beta split: if_splits sum.splits prod.splits)
  then show ?thesis
    by (auto simp: look_sections_def dest!: look_loop_accepts)
qed

subsection \<open>Configuration resolver: the outcome of looking a value up\<close>

lemma loop_outcome:
  "case find (\<lambda>ns'. fst (get_value provider key hint (full_sections provider pn cs ns')) \<noteq> None)
          (rev (prefixes ns)) of
     None \<Rightarrow>
       (\<exists>tr. fst (resolve_single_provider_value_loop provider key hint pn cs ns traces)
               = Inr (None, tr))
   | Some ns' \<Rightarrow>
       if \<not> supports_secrets provider \<and> is_secret_hint hint then
         fst (resolve_single_provider_value_loop provider key hint pn cs ns traces)
           = Inl (ValueNotSecretException (name provider)
                   (snd (get_value provider key hint (full_sections provider pn cs ns'))))
       else
         (\<exists>tr. fst (resolve_single_provider_value_loop provider key hint pn cs ns traces)
                 = Inr (fst (get_value provider key hint (full_sections provider pn cs ns')), tr))"
proof (induction ns arbitrary: traces rule: rev_induct)
  case Nil
  show ?case
    by (subst (1 2 3) resolve_single_provider_value_loop.simps)
       (auto simp add: Let_def full_sections_def)
next
  case (snoc s ns)
  show ?case
  proof (cases "fst (get_value provider key hint (full_sections provider pn cs (ns @ [s]))) = None")
    case True
    define t' where "t' =
       (if \<not> (\<not> supports_secrets provider \<and> is_secret_hint hint)
        then traces @ [LookupTrace (name provider)
               (full_sections provider pn cs (ns @ [s]))
               (snd (get_value provider key hint (full_sections provider pn cs (ns @ [s]))))
               None]
        else traces)"
    have step: "fst (resolve_single_provider_value_loop provider key hint pn cs (ns @ [s]) traces)
        = fst (resolve_single_provider_value_loop provider key hint pn cs ns t')"
      using True unfolding t'_def
      by (subst resolve_single_provider_value_loop.simps)
         (simp add: Let_def case_prod_beta full_sections_def [symmetric])
    have found: "find (\<lambda>ns'. fst (get_value provider key hint (full_sections provider pn cs ns')) \<noteq> None)
          (rev (prefixes (ns @ [s])))
        = find (\<lambda>ns'. fst (get_value provider key hint (full_sections provider pn cs ns')) \<noteq> None)
          (rev (prefixes ns))"
      using True by simp
    show ?thesis
      unfolding found step by (rule snoc.IH)
  next
    case False
    then show ?thesis
      by (subst (1 2) resolve_single_provider_value_loop.simps)
         (auto simp add: Let_def full_sections_def [symmetric])
  qed
qed


lemma shared_Inr_I:
  "fst r = Inr (v, tr) \<Longrightarrow> \<exists>tr'. fst (shared_sections r) = Inr (v, tr')"
  using shared_sections_simps(2) [of r v] by blast

lemma find_holds: "find P xs = Some x \<Longrightarrow> P x"
  by (induction xs) (auto split: if_splits)

lemma provider_outcome:
  "case find (\<lambda>ns. fst (get_value provider key hint ns) \<noteq> None)
          (provider_plan provider pn cs use ems) of
     None \<Rightarrow>
       (\<exists>tr. fst (resolve_single_provider_value provider key hint pn cs use ems) = Inr (None, tr))
   | Some ns \<Rightarrow>
       if \<not> supports_secrets provider \<and> is_secret_hint hint then
         fst (resolve_single_provider_value provider key hint pn cs use ems)
           = Inl (ValueNotSecretException (name provider) (snd (get_value provider key hint ns)))
       else
         (\<exists>tr. fst (resolve_single_provider_value provider key hint pn cs use ems)
                 = Inr (fst (get_value provider key hint ns), tr))"
proof (cases "supports_sections provider")
  case True
  have plan: "find (\<lambda>ns. fst (get_value provider key hint ns) \<noteq> None)
          (provider_plan provider pn cs use ems)
      = map_option (full_sections provider pn cs)
          (find (\<lambda>ns'. fst (get_value provider key hint (full_sections provider pn cs ns')) \<noteq> None)
             (rev (prefixes (use @ ems))))"
    using True by (simp add: provider_plan_def find_map_list)
  show ?thesis
    using True loop_outcome [where provider = provider and key = key and hint = hint and pn = pn
        and cs = cs and ns = "use @ ems" and traces = "[]"]
    unfolding plan
    by (auto simp add: resolve_single_provider_value_def shared_sections_simps
          split: option.splits if_splits intro: shared_Inr_I)
next
  case False
  show ?thesis
  proof (cases "truthy pn")
    case True
    with False show ?thesis
      by (simp add: provider_plan_def resolve_single_provider_value_def)
  next
    case no_pipeline: False
    have "full_sections provider pn cs [] = []"
      using False by (simp add: full_sections_def)
    then show ?thesis
      using False no_pipeline loop_outcome [where provider = provider and key = key and hint = hint
          and pn = pn and cs = cs and ns = "[]" and traces = "[]"]
      by (auto simp add: provider_plan_def resolve_single_provider_value_def
            split: option.splits if_splits)
  qed
qed

lemma provider_secret_traces:
  assumes "\<not> supports_secrets provider" "is_secret_hint hint"
    and "fst (resolve_single_provider_value provider key hint pn cs use ems) = Inr (v, tr)"
  shows "tr = []"
proof -
  have loop: "tr' = []"
    if "fst (resolve_single_provider_value_loop provider key hint pn cs ns []) = Inr (w, tr')"
    for ns w tr'
    using loop_secret [OF assms(1,2), where key = key and pn = pn and cs = cs and ns = ns
        and traces = "[]"] that
    by (cases "resolve_single_provider_value_loop provider key hint pn cs ns []") auto
  have shared: "tr' = []"
    if "fst (shared_sections (resolve_single_provider_value_loop provider key hint pn cs ns []))
          = Inr (w, tr')"
    for ns w tr'
    using that loop [of ns]
    by (cases "resolve_single_provider_value_loop provider key hint pn cs ns []";
        cases "fst (resolve_single_provider_value_loop provider key hint pn cs ns [])")
       (auto simp: shared_sections_def)
  show ?thesis
    using assms(3) loop shared
    by (auto simp: resolve_single_provider_value_def split: if_splits)
qed

lemma look_loop_outcome:
  "latest = Some None \<or> ps \<noteq> [] \<Longrightarrow>
   (case find (yields key hint) (providers_plan ps pn cs use ems) of
     None \<Rightarrow>
       (\<exists>tr. fst (look_sections_loop ps latest key hint pn cs use ems traces) = Inr (None, tr))
   | Some pr \<Rightarrow>
       if \<not> supports_secrets (fst pr) \<and> is_secret_hint hint then
         fst (look_sections_loop ps latest key hint pn cs use ems traces)
           = Inl (ValueNotSecretException (name (fst pr))
                   (snd (get_value (fst pr) key hint (snd pr))))
       else
         (\<exists>tr. fst (look_sections_loop ps latest key hint pn cs use ems traces)
                 = Inr (fst (get_value (fst pr) key hint (snd pr)), tr)))"
proof (induction ps arbitrary: latest traces)
  case Nil
  then show ?case by (simp add: providers_plan_simps)
next
  case (Cons p ps)
  let ?r = "resolve_single_provider_value p key hint pn cs use ems"
  let ?plan = "provider_plan p pn cs use ems"
  let ?hit = "find (\<lambda>ns. fst (get_value p key hint ns) \<noteq> None) ?plan"
  have plan: "find (yields key hint) (providers_plan (p # ps) pn cs use ems)
      = (case ?hit of
           None \<Rightarrow> find (yields key hint) (providers_plan ps pn cs use ems)
         | Some ns \<Rightarrow> Some (p, ns))"
    by (simp add: providers_plan_simps find_append_list find_map_list yields_def
          split: option.splits)
  show ?case
  proof (cases ?hit)
    case None
    with provider_outcome [where provider = p and key = key and hint = hint and pn = pn
        and cs = cs and use = use and ems = ems]
    obtain tr where tr: "fst ?r = Inr (None, tr)" by auto
    then have r: "?r = (Inr (None, tr), snd ?r)" by (metis prod.collapse)
    have step: "fst (look_sections_loop (p # ps) latest key hint pn cs use ems traces) =
        fst (look_sections_loop ps (Some None) key hint pn cs use ems (traces @ tr))"
      by (subst look_sections_loop.simps, subst r) (simp add: case_prod_beta)
    show ?thesis
      unfolding plan None step using Cons.IH [where latest = "Some None" and traces = "traces @ tr"] by simp
  next
    case (Some ns)
    then have found: "fst (get_value p key hint ns) \<noteq> None"
      by (rule find_holds)
    show ?thesis
    proof (cases "\<not> supports_secrets p \<and> is_secret_hint hint")
      case True
      with Some provider_outcome [where provider = p and key = key and hint = hint and pn = pn
        and cs = cs and use = use and ems = ems]
      have "fst ?r = Inl (ValueNotSecretException (name p) (snd (get_value p key hint ns)))"
        by simp
      then have "fst (look_sections_loop (p # ps) latest key hint pn cs use ems traces)
          = Inl (ValueNotSecretException (name p) (snd (get_value p key hint ns)))"
        by (cases ?r) simp
      with True show ?thesis
        unfolding plan Some by simp
    next
      case False
      with Some provider_outcome [where provider = p and key = key and hint = hint and pn = pn
        and cs = cs and use = use and ems = ems]
      obtain tr where "fst ?r = Inr (fst (get_value p key hint ns), tr)"
        by auto
      then have "fst (look_sections_loop (p # ps) latest key hint pn cs use ems traces)
          = Inr (fst (get_value p key hint ns), traces @ tr)"
        using found by (cases ?r) auto
      with False show ?thesis
        unfolding plan Some by auto
    qed
  qed
qed

lemma value_outcome:
  assumes "providers ctx \<noteq> []"
  shows
  "(let cs = fst (apply_embedded_sections_to_config_sections config_section ems);
        ems' = snd (apply_embedded_sections_to_config_sections config_section ems);
        use = (if es \<noteq> [] then es else context_sections ctx)
    in case find (yields key hint)
           ((if truthy (context_pipeline_name ctx)
             then providers_plan (providers ctx) (context_pipeline_name ctx) cs use ems' else [])
            @ providers_plan (providers ctx) None cs use ems') of
         None \<Rightarrow>
           (\<exists>tr. fst (resolve_single_value ctx key hint ValueHint config_section es ems)
                   = Inr (None, tr))
       | Some pr \<Rightarrow>
           if \<not> supports_secrets (fst pr) \<and> is_secret_hint hint then
             fst (resolve_single_value ctx key hint ValueHint config_section es ems)
               = Inl (ValueNotSecretException (name (fst pr))
                       (snd (get_value (fst pr) key hint (snd pr))))
           else
             (\<exists>tr. fst (resolve_single_value ctx key hint ValueHint config_section es ems)
                     = Inr (fst (get_value (fst pr) key hint (snd pr)), tr)))"
proof -
  define cs where "cs = fst (apply_embedded_sections_to_config_sections config_section ems)"
  define ems' where "ems' = snd (apply_embedded_sections_to_config_sections config_section ems)"
  define use where "use = (if es \<noteq> [] then es else context_sections ctx)"
  define pn where "pn = context_pipeline_name ctx"
  let ?res = "resolve_single_value ctx key hint ValueHint config_section es ems"
  let ?p1 = "look_sections ctx key hint pn cs es ems' []"
  let ?plan1 = "providers_plan (providers ctx) pn cs use ems'"
  let ?plan2 = "providers_plan (providers ctx) None cs use ems'"
  let ?out = "\<lambda>hit r. case hit of
         None \<Rightarrow> (\<exists>tr. r = Inr (None, tr))
       | Some pr \<Rightarrow>
           if \<not> supports_secrets (fst pr) \<and> is_secret_hint hint then
             r = Inl (ValueNotSecretException (name (fst pr))
                       (snd (get_value (fst pr) key hint (snd pr))))
           else (\<exists>tr. r = Inr (fst (get_value (fst pr) key hint (snd pr)), tr))"
  have unfold: "?res =
     (case (if truthy pn then ?p1 else (Inr (None, []), [])) of
        (Inl e, calls) \<Rightarrow> (Inl e, calls)
      | (Inr (value, traces), calls) \<Rightarrow>
          if value = None then
            (case look_sections ctx key hint None cs es ems' traces of
               (r, calls') \<Rightarrow> (r, calls @ calls'))
          else (Inr (value, traces), calls))"
    unfolding cs_def ems'_def pn_def
    by (simp add: resolve_single_value_def is_context_inner_hint_def
          is_base_configuration_inner_hint_def Let_def)
  have look: "?out (find (yields key hint) (providers_plan (providers ctx) q cs use ems'))
                (fst (look_sections ctx key hint q cs es ems' traces))" for q traces
    unfolding look_sections_def use_def [symmetric]
    by (rule look_loop_outcome) (simp add: assms)
  have goal: "?out (find (yields key hint) ((if truthy pn then ?plan1 else []) @ ?plan2)) (fst ?res)"
  proof (cases "truthy pn")
    case False
    have res: "fst ?res = fst (look_sections ctx key hint None cs es ems' [])"
      using False by (simp add: unfold case_prod_beta)
    have plan: "(if truthy pn then ?plan1 else []) @ ?plan2 = ?plan2"
      using False by simp
    show ?thesis
      unfolding res plan by (rule look)
  next
    case True
    show ?thesis
    proof (cases "find (yields key hint) ?plan1")
      case None
      with look [of pn "[]"] obtain tr where "fst ?p1 = Inr (None, tr)" by auto
      then have p1: "?p1 = (Inr (None, tr), snd ?p1)" by (metis prod.collapse)
      have res: "fst ?res = fst (look_sections ctx key hint None cs es ems' tr)"
        using True by (subst unfold, simp, subst p1) (simp add: case_prod_beta)
      have plan: "find (yields key hint) ((if truthy pn then ?plan1 else []) @ ?plan2)
          = find (yields key hint) ?plan2"
        using True None by (simp add: find_append_list)
      show ?thesis
        unfolding res plan by (rule look)
    next
      case (Some pr)
      then have found: "fst (get_value (fst pr) key hint (snd pr)) \<noteq> None"
        using find_holds [of "yields key hint" ?plan1 pr] by (simp add: yields_def)
      have res: "fst ?res = fst ?p1"
        using look [of pn "[]"] found True unfolding Some
        by (cases ?p1; cases "fst ?p1") (auto simp: unfold split: if_splits)
      have plan: "find (yields key hint) ((if truthy pn then ?plan1 else []) @ ?plan2)
          = find (yields key hint) ?plan1"
        using True Some by (simp add: find_append_list)
      show ?thesis
        unfolding res plan by (rule look)
    qed
  qed
  show ?thesis
    using goal unfolding cs_def ems'_def use_def pn_def Let_def .
qed


subsection \<open>Configuration resolver: order of the section walk\<close>

text \<open>
  C2, as stated, fails. With pipeline name \<^verbatim>\<open>p\<close>, sections \<^verbatim>\<open>(s1, s2)\<close> and configuration
  section \<^verbatim>\<open>cfg\<close>, a provider that finds nothing is asked six times, not eight: the
  configuration section is appended to every prefix, so \<^verbatim>\<open>(p,s1,s2)\<close>, \<^verbatim>\<open>(p,s1)\<close>,
  \<^verbatim>\<open>(p)\<close> and \<^verbatim>\<open>()\<close> are never tried, while \<^verbatim>\<open>(s1,s2,cfg)\<close> and \<^verbatim>\<open>(s1,cfg)\<close> are.
  The example provider holds a value under \<^verbatim>\<open>(p)\<close>; it is not found.
\<close>

theorem section_walk_claimed_order_fails:
  "resolve_single_value env_context ''k'' plain_hint ValueHint (Some ''cfg'') [''s1'', ''s2''] []
     = (Inr (None,
          map (\<lambda>ns. LookupTrace ''env'' ns ''k'' None)
            [[''p'', ''s1'', ''s2'', ''cfg''], [''p'', ''s1'', ''cfg''], [''p'', ''cfg''],
             [''s1'', ''s2'', ''cfg''], [''s1'', ''cfg''], [''cfg'']]),
        map (\<lambda>ns. (''env'', ''k'', ns))
            [[''p'', ''s1'', ''s2'', ''cfg''], [''p'', ''s1'', ''cfg''], [''p'', ''cfg''],
             [''s1'', ''s2'', ''cfg''], [''s1'', ''cfg''], [''cfg'']])
   \<and> snd (resolve_single_value env_context ''k'' plain_hint ValueHint (Some ''cfg'')
            [''s1'', ''s2''] [])
     \<noteq> map (\<lambda>ns. (''env'', ''k'', ns))
            [[''p'', ''s1'', ''s2'', ''cfg''], [''p'', ''s1'', ''cfg''], [''p'', ''cfg''], [''cfg''],
             [''p'', ''s1'', ''s2''], [''p'', ''s1''], [''p''], []]
   \<and> fst (get_value env_provider ''k'' plain_hint [''p'']) = Some ''v''"
  by (simp add: resolve_single_value_def env_context_def env_provider_def plain_hint_def
        look_sections_def resolve_single_provider_value_def
        resolve_single_provider_value_loop.simps is_context_inner_hint_def
        is_base_configuration_inner_hint_def apply_embedded_sections_to_config_sections_def
        truthy_def opt_section_def Let_def)

text \<open>
  C2, amended: when every provider supports sections, the pipeline name is \<^verbatim>\<open>p\<close>, the
  sections are \<^verbatim>\<open>(s1, s2)\<close> and the configuration section is \<^verbatim>\<open>cfg\<close>, the calls made
  for a key are: each provider in turn with \<^verbatim>\<open>(p,s1,s2,cfg)\<close>, \<^verbatim>\<open>(p,s1,cfg)\<close>,
  \<^verbatim>\<open>(p,cfg)\<close>, then each provider in turn with \<^verbatim>\<open>(s1,s2,cfg)\<close>, \<^verbatim>\<open>(s1,cfg)\<close>,
  \<^verbatim>\<open>(cfg)\<close>; the sequence stops at the first call that yields a value.
\<close>

theorem section_walk_order:
  assumes "list_all supports_sections (providers ctx)"
    and "context_pipeline_name ctx = Some p" and "p \<noteq> []" and "cfg \<noteq> []"
  shows "snd (resolve_single_value ctx key hint ValueHint (Some cfg) [s1, s2] []) =
     map (\<lambda>(provider, ns). (name provider, key, ns))
       (take_until (\<lambda>(provider, ns). fst (get_value provider key hint ns) \<noteq> None)
          (concat (map (\<lambda>provider.
               [(provider, [p, s1, s2, cfg]), (provider, [p, s1, cfg]), (provider, [p, cfg])])
             (providers ctx))
           @ concat (map (\<lambda>provider.
               [(provider, [s1, s2, cfg]), (provider, [s1, cfg]), (provider, [cfg])])
             (providers ctx))))"
proof -
  have plan1: "providers_plan ps (Some p) (Some cfg) [s1, s2] [] =
      concat (map (\<lambda>provider.
               [(provider, [p, s1, s2, cfg]), (provider, [p, s1, cfg]), (provider, [p, cfg])]) ps)"
    if "list_all supports_sections ps" for ps :: "'a config_provider list"
    using that assms(3,4)
    by (induction ps)
       (simp_all add: providers_plan_simps provider_plan_def full_sections_def truthy_def
          opt_section_def)
  have plan2: "providers_plan ps None (Some cfg) [s1, s2] [] =
      concat (map (\<lambda>provider.
               [(provider, [s1, s2, cfg]), (provider, [s1, cfg]), (provider, [cfg])]) ps)"
    if "list_all supports_sections ps" for ps :: "'a config_provider list"
    using that assms(3,4)
    by (induction ps)
       (simp_all add: providers_plan_simps provider_plan_def full_sections_def truthy_def
          opt_section_def)
  have fns: "call_of key = (\<lambda>(provider, ns). (name provider, key, ns))"
    "yields key hint = (\<lambda>(provider, ns). fst (get_value provider key hint ns) \<noteq> None)"
    by (auto simp: call_of_def yields_def fun_eq_iff)
  show ?thesis
    using assms(2,3)
    by (simp add: value_calls apply_embedded_sections_to_config_sections_def Let_def
          plan1 [OF assms(1)] plan2 [OF assms(1)] fns truthy_def)
qed

theorem section_walk_order_witness:
  "list_all supports_sections (providers env_context)
   \<and> context_pipeline_name env_context = Some ''p''
   \<and> snd (resolve_single_value env_context ''k'' plain_hint ValueHint (Some ''cfg'')
            [''s1'', ''s2''] [])
     = [(''env'', ''k'', [''p'', ''s1'', ''s2'', ''cfg'']), (''env'', ''k'', [''p'', ''s1'', ''cfg'']),
        (''env'', ''k'', [''p'', ''cfg'']), (''env'', ''k'', [''s1'', ''s2'', ''cfg'']),
        (''env'', ''k'', [''s1'', ''cfg'']), (''env'', ''k'', [''cfg''])]"
proof -
  have h1: "list_all supports_sections (providers env_context)"
    by (simp add: env_context_def env_provider_def)
  have h2: "context_pipeline_name env_context = Some ''p''"
    by (simp add: env_context_def)
  have h3: "''p'' \<noteq> []" and h4: "''cfg'' \<noteq> []"
    by simp_all
  show ?thesis
    using h1 h2 section_walk_order [OF h1 h2 h3 h4, of "''k''" plain_hint "''s1''" "''s2''"]
    by (simp add: env_context_def env_provider_def)
qed

subsection \<open>Configuration resolver: the secret gate\<close>

text \<open>
  C3: let the hint be secret-typed.

  (1) A provider without secret support is asked for its sections in the order of
  \<^const>\<open>provider_plan\<close>, up to the first call that yields a value. If some call yields a
  value, \<^verbatim>\<open>ValueNotSecretException\<close> is raised, with the provider's name and the
  effective key of that call; nothing is returned. Otherwise (also when no call is made)
  the result is \<^verbatim>\<open>None\<close> with no trace.

  (2) In the resolution of a single value, with at least one provider, the providers are
  asked in the order of the two passes, up to the first call that yields a value. If that
  call is to a provider without secret support, the resolution raises
  \<^verbatim>\<open>ValueNotSecretException\<close> with that provider's name and the effective key of the
  call; if it is to a provider with secret support, the value is returned; if no call
  yields a value the result is \<^verbatim>\<open>None\<close>.

  (3) A value that the resolution of a single value returns was yielded by a provider
  that supports secrets.
\<close>

theorem secret_gate:
  assumes "is_secret_hint hint"
  shows "(\<not> supports_secrets provider \<longrightarrow>
           resolve_single_provider_value provider key hint pipeline config_section
               explicit_sections embedded_sections
             = ((case find (\<lambda>ns. fst (get_value provider key hint ns) \<noteq> None)
                        (provider_plan provider pipeline config_section
                           explicit_sections embedded_sections) of
                   None \<Rightarrow> Inr (None, [])
                 | Some ns \<Rightarrow>
                     Inl (ValueNotSecretException (name provider)
                            (snd (get_value provider key hint ns)))),
                map (\<lambda>ns. (name provider, key, ns))
                  (take_until (\<lambda>ns. fst (get_value provider key hint ns) \<noteq> None)
                     (provider_plan provider pipeline config_section
                        explicit_sections embedded_sections))))
       \<and> (providers ctx \<noteq> [] \<longrightarrow>
            (let cs = fst (apply_embedded_sections_to_config_sections config_section
                             embedded_sections);
                 ems = snd (apply_embedded_sections_to_config_sections config_section
                              embedded_sections);
                 use = (if explicit_sections \<noteq> [] then explicit_sections
                        else context_sections ctx);
                 plan = (if truthy (context_pipeline_name ctx)
                         then providers_plan (providers ctx) (context_pipeline_name ctx)
                                cs use ems
                         else [])
                        @ providers_plan (providers ctx) None cs use ems
             in snd (resolve_single_value ctx key hint ValueHint config_section
                       explicit_sections embedded_sections)
                  = map (call_of key) (take_until (yields key hint) plan)
                \<and> (case find (yields key hint) plan of
                      None \<Rightarrow>
                        (\<exists>tr. fst (resolve_single_value ctx key hint ValueHint config_section
                                     explicit_sections embedded_sections) = Inr (None, tr))
                    | Some pr \<Rightarrow>
                        if supports_secrets (fst pr) then
                          (\<exists>tr. fst (resolve_single_value ctx key hint ValueHint config_section
                                       explicit_sections embedded_sections)
                                 = Inr (fst (get_value (fst pr) key hint (snd pr)), tr))
                        else
                          fst (resolve_single_value ctx key hint ValueHint config_section
                                 explicit_sections embedded_sections)
                            = Inl (ValueNotSecretException (name (fst pr))
                                     (snd (get_value (fst pr) key hint (snd pr)))))))
       \<and> (\<forall>v tr. fst (resolve_single_value ctx key hint ValueHint config_section
                        explicit_sections embedded_sections) = Inr (Some v, tr)
            \<longrightarrow> (\<exists>p\<in>set (providers ctx). supports_secrets p
                    \<and> (\<exists>ns. fst (get_value p key hint ns) = Some v)))"
proof (intro conjI impI allI)
  assume ns: "\<not> supports_secrets provider"
  let ?r = "resolve_single_provider_value provider key hint pipeline config_section
              explicit_sections embedded_sections"
  let ?plan = "provider_plan provider pipeline config_section explicit_sections embedded_sections"
  let ?hit = "find (\<lambda>ns. fst (get_value provider key hint ns) \<noteq> None) ?plan"
  note outcome = provider_outcome [where provider = provider and key = key and hint = hint
      and pn = pipeline and cs = config_section and use = explicit_sections
      and ems = embedded_sections]
  have res: "fst ?r =
      (case ?hit of
         None \<Rightarrow> Inr (None, [])
       | Some ns \<Rightarrow>
           Inl (ValueNotSecretException (name provider) (snd (get_value provider key hint ns))))"
  proof (cases ?hit)
    case None
    with outcome obtain tr where tr: "fst ?r = Inr (None, tr)" by auto
    from provider_secret_traces [OF ns assms tr] tr show ?thesis
      unfolding None by simp
  next
    case (Some s)
    from outcome ns assms show ?thesis
      unfolding Some by simp
  qed
  show "?r = (case ?hit of
         None \<Rightarrow> Inr (None, [])
       | Some ns \<Rightarrow>
           Inl (ValueNotSecretException (name provider) (snd (get_value provider key hint ns))),
       map (\<lambda>ns. (name provider, key, ns))
         (take_until (\<lambda>ns. fst (get_value provider key hint ns) \<noteq> None) ?plan))"
    using res provider_calls [of provider key hint pipeline config_section explicit_sections
        embedded_sections]
    by (simp add: prod_eq_iff)
next
  assume ne: "providers ctx \<noteq> []"
  show "let cs = fst (apply_embedded_sections_to_config_sections config_section
                             embedded_sections);
                 ems = snd (apply_embedded_sections_to_config_sections config_section
                              embedded_sections);
                 use = (if explicit_sections \<noteq> [] then explicit_sections
                        else context_sections ctx);
                 plan = (if truthy (context_pipeline_name ctx)
                         then providers_plan (providers ctx) (context_pipeline_name ctx)
                                cs use ems
                         else [])
                        @ providers_plan (providers ctx) None cs use ems
             in snd (resolve_single_value ctx key hint ValueHint config_section
                       explicit_sections embedded_sections)
                  = map (call_of key) (take_until (yields key hint) plan)
                \<and> (case find (yields key hint) plan of
                      None \<Rightarrow>
                        (\<exists>tr. fst (resolve_single_value ctx key hint ValueHint config_section
                                     explicit_sections embedded_sections) = Inr (None, tr))
                    | Some pr \<Rightarrow>
                        if supports_secrets (fst pr) then
                          (\<exists>tr. fst (resolve_single_value ctx key hint ValueHint config_section
                                       explicit_sections embedded_sections)
                                 = Inr (fst (get_value (fst pr) key hint (snd pr)), tr))
                        else
                          fst (resolve_single_value ctx key hint ValueHint config_section
                                 explicit_sections embedded_sections)
                            = Inl (ValueNotSecretException (name (fst pr))
                                     (snd (get_value (fst pr) key hint (snd pr)))))"
  proof -
    define plan where "plan =
       (if truthy (context_pipeline_name ctx)
        then providers_plan (providers ctx) (context_pipeline_name ctx)
               (fst (apply_embedded_sections_to_config_sections config_section
                       embedded_sections))
               (if explicit_sections \<noteq> [] then explicit_sections else context_sections ctx)
               (snd (apply_embedded_sections_to_config_sections config_section
                       embedded_sections))
        else [])
       @ providers_plan (providers ctx) None
           (fst (apply_embedded_sections_to_config_sections config_section embedded_sections))
           (if explicit_sections \<noteq> [] then explicit_sections else context_sections ctx)
           (snd (apply_embedded_sections_to_config_sections config_section embedded_sections))"
    let ?r = "resolve_single_value ctx key hint ValueHint config_section
                explicit_sections embedded_sections"
    have calls: "snd ?r = map (call_of key) (take_until (yields key hint) plan)"
      using value_calls [where ctx = ctx and key = key and hint = hint
          and config_section = config_section and es = explicit_sections
          and ems = embedded_sections]
      unfolding plan_def Let_def .
    have outcome: "case find (yields key hint) plan of
          None \<Rightarrow> (\<exists>tr. fst ?r = Inr (None, tr))
        | Some pr \<Rightarrow>
            if \<not> supports_secrets (fst pr) \<and> is_secret_hint hint then
              fst ?r = Inl (ValueNotSecretException (name (fst pr))
                              (snd (get_value (fst pr) key hint (snd pr))))
            else (\<exists>tr. fst ?r = Inr (fst (get_value (fst pr) key hint (snd pr)), tr))"
      using value_outcome [OF ne, where key = key and hint = hint
          and config_section = config_section and es = explicit_sections
          and ems = embedded_sections]
      unfolding plan_def Let_def .
    have gate: "case find (yields key hint) plan of
          None \<Rightarrow> (\<exists>tr. fst ?r = Inr (None, tr))
        | Some pr \<Rightarrow>
            if supports_secrets (fst pr) then
              (\<exists>tr. fst ?r = Inr (fst (get_value (fst pr) key hint (snd pr)), tr))
            else
              fst ?r = Inl (ValueNotSecretException (name (fst pr))
                              (snd (get_value (fst pr) key hint (snd pr))))"
    proof (cases "find (yields key hint) plan")
      case None
      from outcome show ?thesis unfolding None by simp
    next
      case (Some pr)
      from outcome assms show ?thesis unfolding Some by simp
    qed
    show ?thesis
      using calls gate unfolding plan_def Let_def by (rule conjI)
  qed
next
  fix v tr
  assume "fst (resolve_single_value ctx key hint ValueHint config_section
                 explicit_sections embedded_sections) = Inr (Some v, tr)"
  from value_accepts [OF this] assms
  show "\<exists>p\<in>set (providers ctx). supports_secrets p
          \<and> (\<exists>ns. fst (get_value p key hint ns) = Some v)"
    by auto
qed

theorem secret_gate_witness:
  "is_secret_hint secret_hint
   \<and> \<not> supports_secrets ini_provider \<and> providers ini_context \<noteq> []
   \<and> resolve_single_provider_value ini_provider ''password'' secret_hint None None
         [''db'', ''pg''] []
       = (Inl (ValueNotSecretException ''ini'' ''db.password''),
          [(''ini'', ''password'', [''db'', ''pg'']), (''ini'', ''password'', [''db''])])
   \<and> resolve_single_value ini_context ''password'' secret_hint ValueHint None [''db'', ''pg''] []
       = (Inl (ValueNotSecretException ''ini'' ''db.password''),
          [(''vault'', ''password'', [''p'', ''db'', ''pg'']), (''vault'', ''password'', [''p'', ''db'']),
           (''vault'', ''password'', [''p'']),
           (''ini'', ''password'', [''p'', ''db'', ''pg'']), (''ini'', ''password'', [''p'', ''db'']),
           (''ini'', ''password'', [''p'']),
           (''vault'', ''password'', [''db'', ''pg'']), (''vault'', ''password'', [''db'']),
           (''vault'', ''password'', []),
           (''ini'', ''password'', [''db'', ''pg'']), (''ini'', ''password'', [''db''])])
   \<and> \<not> supports_secrets file_provider \<and> providers file_context \<noteq> []
   \<and> resolve_single_provider_value file_provider ''password'' secret_hint None None [] []
       = (Inl (ValueNotSecretException ''file'' ''PASSWORD''), [(''file'', ''password'', [])])
   \<and> resolve_single_value file_context ''password'' secret_hint ValueHint None [] []
       = (Inl (ValueNotSecretException ''file'' ''PASSWORD''), [(''file'', ''password'', [])])
   \<and> supports_secrets env_provider \<and> providers env_context \<noteq> []
   \<and> resolve_single_provider_value ini_provider ''k'' secret_hint None None [] []
       = (Inr (None, []), [(''ini'', ''k'', [])])
   \<and> resolve_single_value env_context ''k'' secret_hint ValueHint None [] []
       = (Inr (Some ''v'', [LookupTrace ''env'' [''p''] ''k'' (Some ''v'')]),
          [(''env'', ''k'', [''p''])])"
proof -
  have h: "is_secret_hint secret_hint"
    by (simp add: secret_hint_def)
  have run: "is_secret_hint secret_hint
     \<and> \<not> supports_secrets ini_provider \<and> providers ini_context \<noteq> []
     \<and> resolve_single_provider_value ini_provider ''password'' secret_hint None None
           [''db'', ''pg''] []
         = (Inl (ValueNotSecretException ''ini'' ''db.password''),
            [(''ini'', ''password'', [''db'', ''pg'']), (''ini'', ''password'', [''db''])])
     \<and> resolve_single_value ini_context ''password'' secret_hint ValueHint None [''db'', ''pg''] []
         = (Inl (ValueNotSecretException ''ini'' ''db.password''),
            [(''vault'', ''password'', [''p'', ''db'', ''pg'']), (''vault'', ''password'', [''p'', ''db'']),
             (''vault'', ''password'', [''p'']),
             (''ini'', ''password'', [''p'', ''db'', ''pg'']), (''ini'', ''password'', [''p'', ''db'']),
             (''ini'', ''password'', [''p'']),
             (''vault'', ''password'', [''db'', ''pg'']), (''vault'', ''password'', [''db'']),
             (''vault'', ''password'', []),
             (''ini'', ''password'', [''db'', ''pg'']), (''ini'', ''password'', [''db''])])
     \<and> \<not> supports_secrets file_provider \<and> providers file_context \<noteq> []
     \<and> resolve_single_provider_value file_provider ''password'' secret_hint None None [] []
         = (Inl (ValueNotSecretException ''file'' ''PASSWORD''), [(''file'', ''password'', [])])
     \<and> resolve_single_value file_context ''password'' secret_hint ValueHint None [] []
         = (Inl (ValueNotSecretException ''file'' ''PASSWORD''), [(''file'', ''password'', [])])
     \<and> supports_secrets env_provider \<and> providers env_context \<noteq> []
     \<and> resolve_single_provider_value ini_provider ''k'' secret_hint None None [] []
         = (Inr (None, []), [(''ini'', ''k'', [])])
     \<and> resolve_single_value env_context ''k'' secret_hint ValueHint None [] []
         = (Inr (Some ''v'', [LookupTrace ''env'' [''p''] ''k'' (Some ''v'')]),
            [(''env'', ''k'', [''p''])])"
    by (simp add: ini_provider_def vault_provider_def ini_context_def
          file_provider_def file_context_def env_provider_def env_context_def secret_hint_def
          resolve_single_provider_value_def resolve_single_provider_value_loop.simps
          shared_sections_def with_sections_def
          resolve_single_value_def look_sections_def is_context_inner_hint_def
          is_base_configuration_inner_hint_def apply_embedded_sections_to_config_sections_def
          truthy_def opt_section_def Let_def)
  show ?thesis
    using
      secret_gate [OF h, where provider = ini_provider and key = "''password''"
        and pipeline = None and config_section = None and explicit_sections = "[''db'', ''pg'']"
        and embedded_sections = "[]" and ctx = ini_context]
      secret_gate [OF h, where provider = file_provider and key = "''password''"
        and pipeline = None and config_section = None and explicit_sections = "[]"
        and embedded_sections = "[]" and ctx = file_context]
      secret_gate [OF h, where provider = ini_provider and key = "''k''"
        and pipeline = None and config_section = None and explicit_sections = "[]"
        and embedded_sections = "[]" and ctx = env_context]
    by (simp only: run simp_thms)
qed

subsection \<open>Configuration resolver: a resolved configuration is not resolved again\<close>

text \<open>
  The example configuration resolves from the example provider: the section is looked
  up as a native value, then the field, then the hook runs and the flag is set.
\<close>

lemma db_config_resolves:
  "resolve_configuration 2 db_env (VConfig (new_instance db_class)) [] None False =
     (None,
      VConfig (Config ''DbConfig'' [(''host'', Some (VStr ''h1''))] True None),
      [Called (''env'', ''db'', []),
       LogTraces ''db'' [LookupTrace ''env'' [] ''db'' None],
       Called (''env'', ''host'', [''db'']),
       LogTraces ''host'' [LookupTrace ''env'' [''db''] ''host'' (Some (VStr ''h1''))],
       Hook ''DbConfig'' ''on_resolved''])"
  by code_simp

text \<open>
  C8: if \<^verbatim>\<open>is_resolved()\<close> holds of a configuration, \<^verbatim>\<open>_resolve_configuration\<close> (entered
  within the recursion limit) returns it as it is, with no call of a provider, of
  \<^verbatim>\<open>log_traces\<close> or of a hook, whatever the other arguments are; so does every further
  call on the instance returned. The public \<^verbatim>\<open>resolve_configuration\<close> leaves a resolved
  configuration unchanged as well and calls no hook (it may look the section up as a
  native value before it calls \<^verbatim>\<open>_resolve_configuration\<close>).
\<close>

theorem resolve_configuration_idempotent:
  assumes "is_resolved config"
  shows "resolve_configuration' (Suc depth) env config explicit_sections embedded_sections
            explicit_value accept_partial = (None, config, [])
       \<and> (case resolve_configuration' (Suc depth) env config explicit_sections embedded_sections
                  explicit_value accept_partial of
            (r, returned, effects) \<Rightarrow>
              resolve_configuration' (Suc depth') env' returned explicit_sections'
                embedded_sections' explicit_value' accept_partial' = (None, config, []))
       \<and> fst (snd (resolve_configuration (Suc depth) env (VConfig config) sections explicit_value
                      accept_partial)) = VConfig config
       \<and> list_all (\<lambda>e. case e of Hook c m \<Rightarrow> False | _ \<Rightarrow> True)
            (snd (snd (resolve_configuration (Suc depth) env (VConfig config) sections
                         explicit_value accept_partial)))"
  using assms
  by (auto simp add: resolve_configuration_body_def resolve_configuration_def Let_def
        list_all_iff split: prod.splits sum.splits if_splits)

theorem resolve_configuration_idempotent_witness:
  "is_resolved (Config ''DbConfig'' [(''host'', Some (VStr ''h0''))] True None)
   \<and> resolve_configuration' 1 db_env (Config ''DbConfig'' [(''host'', Some (VStr ''h0''))] True None)
        [] [] None False
      = (None, Config ''DbConfig'' [(''host'', Some (VStr ''h0''))] True None, [])
   \<and> resolve_configuration 1 db_env
        (VConfig (Config ''DbConfig'' [(''host'', Some (VStr ''h0''))] True None)) [] None False
      = (None, VConfig (Config ''DbConfig'' [(''host'', Some (VStr ''h0''))] True None),
         [Called (''env'', ''db'', []), LogTraces ''db'' [LookupTrace ''env'' [] ''db'' None]])"
proof -
  let ?c = "Config ''DbConfig'' [(''host'', Some (VStr ''h0''))] True None"
  have h: "is_resolved ?c" by simp
  have pub: "resolve_configuration 1 db_env (VConfig ?c) [] None False
      = (None, VConfig ?c,
         [Called (''env'', ''db'', []), LogTraces ''db'' [LookupTrace ''env'' [] ''db'' None]])"
    by code_simp
  from resolve_configuration_idempotent [OF h, of 0 db_env "[]" "[]" None False]
  have "resolve_configuration' 1 db_env ?c [] [] None False = (None, ?c, [])"
    by simp
  with h pub show ?thesis by simp
qed

subsection \<open>Schema contract engine\<close>

lemma frozen_changes_Nil:
  "frozen_changes modes existing cols = []
   \<longleftrightarrow> (\<forall>nc\<in>set cols. \<forall>ch\<in>set (column_changes modes existing nc). snd (snd ch) \<noteq> freeze)"
  by (auto simp: frozen_changes_def filter_empty_conv)

lemma frozen_changes_Cons:
  "frozen_changes modes existing cols = (n, slot, kind) # rest
   \<Longrightarrow> \<exists>c. (n, c) \<in> set cols \<and> (slot, kind, freeze) \<in> set (column_changes modes existing (n, c))"
proof -
  assume a: "frozen_changes modes existing cols = (n, slot, kind) # rest"
  then have "(n, slot, kind) \<in> set (frozen_changes modes existing cols)" by simp
  then show ?thesis
    by (auto simp: frozen_changes_def) 
qed

lemma column_has_iff:
  "column_has modes existing m nc \<longleftrightarrow> (\<exists>ch\<in>set (column_changes modes existing nc). snd (snd ch) = m)"
  by (simp add: column_has_def list_ex_iff)

lemmas ex_defs = test_columns_def incomplete_columns_def tables_table_def child_table_def
  incomplete_table_def mixed_table_def get_schema_def mixed_settings_schema_def test_data_def
  new_column_update_def incomplete_column_update_def variant_update_def

lemmas contract_defs = apply_schema_contract_def frozen_changes_def column_has_def
  column_changes_def is_new_column_def is_complete_column_def DEFAULT_SCHEMA_CONTRACT_MODE_def

text \<open>
  C5: when there is no existing table the tables slot alone decides, whatever the other
  two slots are: \<^verbatim>\<open>evolve\<close> returns the input pair unchanged, \<^verbatim>\<open>discard_row\<close> and
  \<^verbatim>\<open>discard_value\<close> both return \<^verbatim>\<open>(None, None)\<close>, and \<^verbatim>\<open>freeze\<close> raises
  \<^verbatim>\<open>SchemaFrozen\<close>.
\<close>

theorem new_table_outcomes:
  "apply_schema_contract (modes\<lparr>tables := evolve\<rparr>) table data delta None = Inr (Some data, Some delta)
   \<and> apply_schema_contract (modes\<lparr>tables := discard_row\<rparr>) table data delta None = Inr (None, None)
   \<and> apply_schema_contract (modes\<lparr>tables := discard_value\<rparr>) table data delta None = Inr (None, None)
   \<and> apply_schema_contract (modes\<lparr>tables := freeze\<rparr>) table data delta None
        = Inl (SchemaFrozen table None tables_slot new_table)"
  by (simp add: apply_schema_contract_def)

text \<open>
  C1: for every triple of modes and every input, the outcome is a raised
  \<^verbatim>\<open>SchemaFrozen\<close>, the pair \<^verbatim>\<open>(None, None)\<close>, or the input pair with the columns of
  some set of names removed from data and delta (the unchanged pair when the set is
  empty). Nothing forbidden passes: a new table passes only under \<^verbatim>\<open>tables = evolve\<close>;
  for an existing table every column left in the returned delta has only changes whose
  slot is \<^verbatim>\<open>evolve\<close>, and no column of the delta with a change under a stricter slot
  is left in the returned data.
\<close>

theorem contract_engine_total:
  fixes data :: "(string \<times> 'v) list" and modes table delta existing_table
  defines "r \<equiv> apply_schema_contract modes table data delta existing_table"
  shows "((\<exists>col slot kind. r = Inl (SchemaFrozen table col slot kind))
          \<or> r = Inr (None, None)
          \<or> (\<exists>S. r = Inr (Some (filter (\<lambda>kv. fst kv \<notin> S) data),
                          Some (delta\<lparr>table_columns := filter (\<lambda>nc. fst nc \<notin> S) (table_columns delta)\<rparr>))))
       \<and> (existing_table = None \<and> tables modes \<noteq> evolve \<longrightarrow> (\<forall>data' delta'. r \<noteq> Inr (Some data', delta')))
       \<and> (\<forall>existing data' delta'. existing_table = Some existing \<and> r = Inr (Some data', Some delta') \<longrightarrow>
             (\<forall>nc\<in>set (table_columns delta'). \<forall>ch\<in>set (column_changes modes existing nc). snd (snd ch) = evolve)
           \<and> (\<forall>nc\<in>set (table_columns delta). (\<exists>ch\<in>set (column_changes modes existing nc). snd (snd ch) \<noteq> evolve)
                  \<longrightarrow> fst nc \<notin> fst ` set data'))"
proof (intro conjI allI impI)
  show "(\<exists>col slot kind. r = Inl (SchemaFrozen table col slot kind))
          \<or> r = Inr (None, None)
          \<or> (\<exists>S. r = Inr (Some (filter (\<lambda>kv. fst kv \<notin> S) data),
                          Some (delta\<lparr>table_columns := filter (\<lambda>nc. fst nc \<notin> S) (table_columns delta)\<rparr>)))"
  proof (cases existing_table)
    case None
    have "\<exists>S. data = filter (\<lambda>kv. fst kv \<notin> S) data \<and> delta = delta\<lparr>table_columns := filter (\<lambda>nc. fst nc \<notin> S) (table_columns delta)\<rparr>"
      by (rule exI [of _ "{}"]) simp
    with None show ?thesis
      by (cases "tables modes") (auto simp: r_def apply_schema_contract_def)
  next
    case (Some existing)
    then show ?thesis
      by (auto simp: r_def apply_schema_contract_def Let_def split: list.splits)
  qed
next
  fix data' delta'
  assume "existing_table = None \<and> tables modes \<noteq> evolve"
  then show "r \<noteq> Inr (Some data', delta')"
    by (cases "tables modes") (auto simp: r_def apply_schema_contract_def)
next
  fix existing data' delta'
  assume a: "existing_table = Some existing \<and> r = Inr (Some data', Some delta')"
  then have nf: "frozen_changes modes existing (table_columns delta) = []"
    and nr: "\<not> list_ex (column_has modes existing discard_row) (table_columns delta)"
    and d': "data' = filter (\<lambda>kv. fst kv \<notin> set (map fst (filter (column_has modes existing discard_value)
                                  (table_columns delta)))) data"
    and t': "table_columns delta' = filter (\<lambda>nc. fst nc \<notin> set (map fst (filter (column_has modes existing discard_value)
                                  (table_columns delta)))) (table_columns delta)"
    by (auto simp: r_def apply_schema_contract_def Let_def split: list.splits if_splits)
  show "\<forall>nc\<in>set (table_columns delta'). \<forall>ch\<in>set (column_changes modes existing nc). snd (snd ch) = evolve"
  proof (intro ballI)
    fix nc ch
    assume nc: "nc \<in> set (table_columns delta')" and ch: "ch \<in> set (column_changes modes existing nc)"
    from nc t' have in_delta: "nc \<in> set (table_columns delta)"
      and keep: "fst nc \<notin> fst ` set (filter (column_has modes existing discard_value) (table_columns delta))"
      by auto
    from keep in_delta have "\<not> column_has modes existing discard_value nc" by force
    with ch have 1: "snd (snd ch) \<noteq> discard_value" by (auto simp: column_has_iff)
    from nf in_delta ch have 2: "snd (snd ch) \<noteq> freeze" by (auto simp: frozen_changes_Nil)
    from nr in_delta ch have 3: "snd (snd ch) \<noteq> discard_row" by (auto simp: list_ex_iff column_has_iff)
    from 1 2 3 show "snd (snd ch) = evolve" by (cases "snd (snd ch)") auto
  qed
  show "\<forall>nc\<in>set (table_columns delta). (\<exists>ch\<in>set (column_changes modes existing nc). snd (snd ch) \<noteq> evolve)
                  \<longrightarrow> fst nc \<notin> fst ` set data'"
  proof (intro ballI impI)
    fix nc
    assume in_delta: "nc \<in> set (table_columns delta)"
      and "\<exists>ch\<in>set (column_changes modes existing nc). snd (snd ch) \<noteq> evolve"
    then obtain ch where ch: "ch \<in> set (column_changes modes existing nc)" and ne: "snd (snd ch) \<noteq> evolve"
      by blast
    from nf in_delta ch have 2: "snd (snd ch) \<noteq> freeze" by (auto simp: frozen_changes_Nil)
    from nr in_delta ch have 3: "snd (snd ch) \<noteq> discard_row" by (auto simp: list_ex_iff column_has_iff)
    from ne 2 3 have "snd (snd ch) = discard_value" by (cases "snd (snd ch)") auto
    with ch have "column_has modes existing discard_value nc" by (auto simp: column_has_iff)
    with in_delta have "fst nc \<in> set (map fst (filter (column_has modes existing discard_value) (table_columns delta)))"
      by force
    then show "fst nc \<notin> fst ` set data'" unfolding d' by force
  qed
qed

theorem contract_engine_total_witness:
  "apply_schema_contract \<lparr>tables = evolve, columns = discard_value, data_type = evolve\<rparr> ''tables''
      (test_data @ [(''new_column'', PStr ''some string'')]) new_column_update (Some tables_table)
     = Inr (Some test_data, Some (new_column_update\<lparr>table_columns := []\<rparr>))
   \<and> apply_schema_contract \<lparr>tables = discard_value, columns = evolve, data_type = evolve\<rparr>
      ''new_table'' test_data (tables_table\<lparr>table_name := ''new_table''\<rparr>) None
     = Inr (None, None)"
  using contract_engine_total [where modes = "\<lparr>tables = evolve, columns = discard_value, data_type = evolve\<rparr>"
      and table = "''tables''" and data = "test_data @ [(''new_column'', PStr ''some string'')]"
      and delta = new_column_update and existing_table = "Some tables_table"]
    contract_engine_total [where modes = "\<lparr>tables = discard_value, columns = evolve, data_type = evolve\<rparr>"
      and table = "''new_table''" and data = test_data
      and delta = "tables_table\<lparr>table_name := ''new_table''\<rparr>" and existing_table = None]
  by (simp add: ex_defs contract_defs)

text \<open>
  C6: let the delta for an existing table hold a column whose variant flag is set, and
  let the data_type slot be \<^verbatim>\<open>evolve\<close>. Then the columns slot still governs it:
  \<^verbatim>\<open>freeze\<close> raises \<^verbatim>\<open>SchemaFrozen\<close> for the columns slot, \<^verbatim>\<open>discard_row\<close> returns
  \<^verbatim>\<open>(None, None)\<close>, and \<^verbatim>\<open>discard_value\<close> returns a pair from which the variant
  column has been stripped, in the data and in the delta.
\<close>

theorem new_variant_respects_columns:
  assumes "(n, c) \<in> set (table_columns delta)" and "variant c" and "data_type modes = evolve"
  shows "(columns modes = freeze \<longrightarrow>
            (\<exists>col. apply_schema_contract modes table data delta (Some existing)
                     = Inl (SchemaFrozen table (Some col) columns_slot new_column)))
       \<and> (columns modes = discard_row \<longrightarrow>
            apply_schema_contract modes table data delta (Some existing) = Inr (None, None))
       \<and> (columns modes = discard_value \<longrightarrow>
            (\<exists>data' delta'.
               apply_schema_contract modes table data delta (Some existing)
                 = Inr (Some data', Some delta')
               \<and> n \<notin> fst ` set data' \<and> n \<notin> fst ` set (table_columns delta')
               \<and> set data' \<subseteq> set data \<and> set (table_columns delta') \<subseteq> set (table_columns delta)))"
proof (intro conjI impI)
  have changes: "column_changes modes existing (n, c)
      = [(data_type_slot, new_variant, evolve), (columns_slot, new_column, columns modes)]"
    using assms by (simp add: column_changes_def)
  {
    assume fr: "columns modes = freeze"
    have "(n, columns_slot, new_column) \<in> set (frozen_changes modes existing (table_columns delta))"
      using assms(1) changes fr by (force simp: frozen_changes_def)
    moreover have "\<forall>x\<in>set (frozen_changes modes existing (table_columns delta)).
        fst (snd x) = columns_slot \<and> snd (snd x) = new_column"
      using fr assms(3) by (auto simp: frozen_changes_def column_changes_def split: if_splits)
    ultimately show "\<exists>col. apply_schema_contract modes table data delta (Some existing)
                     = Inl (SchemaFrozen table (Some col) columns_slot new_column)"
      by (cases "frozen_changes modes existing (table_columns delta)")
         (auto simp: apply_schema_contract_def)
  }
  {
    assume dr: "columns modes = discard_row"
    have nf: "frozen_changes modes existing (table_columns delta) = []"
      using dr assms(3) by (auto simp: frozen_changes_Nil column_changes_def split: if_splits)
    have "column_has modes existing discard_row (n, c)"
      using changes dr by (simp add: column_has_def)
    then have "list_ex (column_has modes existing discard_row) (table_columns delta)"
      using assms(1) by (auto simp: list_ex_iff)
    then show "apply_schema_contract modes table data delta (Some existing) = Inr (None, None)"
      by (simp add: apply_schema_contract_def nf)
  }
  {
    assume dv: "columns modes = discard_value"
    have nf: "frozen_changes modes existing (table_columns delta) = []"
      using dv assms(3) by (auto simp: frozen_changes_Nil column_changes_def split: if_splits)
    have nr: "\<not> list_ex (column_has modes existing discard_row) (table_columns delta)"
      using dv assms(3)
      by (auto simp: list_ex_iff column_has_iff column_changes_def split: if_splits)
    have "column_has modes existing discard_value (n, c)"
      using changes dv by (simp add: column_has_def)
    define S where "S = set (map fst (filter (column_has modes existing discard_value)
                                  (table_columns delta)))"
    have nS: "n \<in> S"
      using assms(1) \<open>column_has modes existing discard_value (n, c)\<close>
      unfolding S_def by force
    have res: "apply_schema_contract modes table data delta (Some existing)
        = Inr (Some (filter (\<lambda>kv. fst kv \<notin> S) data),
               Some (delta\<lparr>table_columns := filter (\<lambda>nc. fst nc \<notin> S) (table_columns delta)\<rparr>))"
      by (simp add: apply_schema_contract_def nf nr Let_def S_def)
    show "\<exists>data' delta'.
               apply_schema_contract modes table data delta (Some existing)
                 = Inr (Some data', Some delta')
               \<and> n \<notin> fst ` set data' \<and> n \<notin> fst ` set (table_columns delta')
               \<and> set data' \<subseteq> set data \<and> set (table_columns delta') \<subseteq> set (table_columns delta)"
      unfolding res using nS by auto
  }
qed

theorem new_variant_respects_columns_witness:
  "(''column_2_variant'', \<lparr>column_name = ''column_2_variant'', column_data_type = Some ''number'',
             variant = True\<rparr>) \<in> set (table_columns variant_update)
   \<and> apply_schema_contract (DEFAULT_SCHEMA_CONTRACT_MODE\<lparr>columns := freeze\<rparr>) ''tables''
        (test_data @ [(''column_2_variant'', PInt 345345)]) variant_update (Some tables_table)
      = Inl (SchemaFrozen ''tables'' (Some ''column_2_variant'') columns_slot new_column)
   \<and> apply_schema_contract (DEFAULT_SCHEMA_CONTRACT_MODE\<lparr>columns := discard_row\<rparr>) ''tables''
        (test_data @ [(''column_2_variant'', PInt 345345)]) variant_update (Some tables_table)
      = Inr (None, None)
   \<and> apply_schema_contract (DEFAULT_SCHEMA_CONTRACT_MODE\<lparr>columns := discard_value\<rparr>) ''tables''
        (test_data @ [(''column_2_variant'', PInt 345345)]) variant_update (Some tables_table)
      = Inr (Some test_data, Some (variant_update\<lparr>table_columns := []\<rparr>))"
proof -
  let ?c = "\<lparr>column_name = ''column_2_variant'', column_data_type = Some ''number'', variant = True\<rparr>"
  have h1: "(''column_2_variant'', ?c) \<in> set (table_columns variant_update)"
    by (simp add: variant_update_def)
  have h2: "variant ?c" by simp
  have h3: "data_type (DEFAULT_SCHEMA_CONTRACT_MODE\<lparr>columns := m\<rparr>) = evolve" for m
    by (simp add: DEFAULT_SCHEMA_CONTRACT_MODE_def)
  show ?thesis
    using h1
      new_variant_respects_columns [OF h1 h2 h3, of freeze "''tables''"
         "test_data @ [(''column_2_variant'', PInt 345345)]" tables_table]
    by (simp add: ex_defs contract_defs)
qed

text \<open>
  The assertions of \<^verbatim>\<open>test_resolve_contract_settings\<close> (defaults),
  \<^verbatim>\<open>test_check_adding_new_columns\<close> (for any base settings) and
  \<^verbatim>\<open>test_check_adding_new_variant\<close> hold of the definitions above.
\<close>

lemma test_resolve_contract_settings_defaults:
  "resolve_contract_settings_for_table get_schema None ''tables'' = DEFAULT_SCHEMA_CONTRACT_MODE"
  "resolve_contract_settings_for_table get_schema (Some ''tables'') ''child_table''
     = DEFAULT_SCHEMA_CONTRACT_MODE"
  by (simp_all add: ex_defs resolve_contract_settings_for_table_def table_override_def overlay_def)

lemma test_check_adding_new_columns:
  "apply_schema_contract (base\<lparr>columns := evolve\<rparr>) ''tables''
      (test_data @ [(''new_column'', PStr ''some string'')]) new_column_update (Some tables_table)
     = Inr (Some (test_data @ [(''new_column'', PStr ''some string'')]), Some new_column_update)"
  "apply_schema_contract (base\<lparr>columns := discard_row\<rparr>) ''tables''
      (test_data @ [(''new_column'', PStr ''some string'')]) new_column_update (Some tables_table)
     = Inr (None, None)"
  "apply_schema_contract (base\<lparr>columns := discard_value\<rparr>) ''tables''
      (test_data @ [(''new_column'', PStr ''some string'')]) new_column_update (Some tables_table)
     = Inr (Some test_data, Some (new_column_update\<lparr>table_columns := []\<rparr>))"
  "apply_schema_contract (base\<lparr>columns := freeze\<rparr>) ''tables''
      (test_data @ [(''new_column'', PStr ''some string'')]) new_column_update (Some tables_table)
     = Inl (SchemaFrozen ''tables'' (Some ''new_column'') columns_slot new_column)"
  by (simp_all add: ex_defs contract_defs)

lemma test_check_adding_incomplete_columns:
  "apply_schema_contract (base\<lparr>columns := evolve\<rparr>) ''mixed_table''
      (test_data @ [(''incomplete_column_1'', PStr ''some other string'')])
      incomplete_column_update (Some mixed_table)
     = Inr (Some (test_data @ [(''incomplete_column_1'', PStr ''some other string'')]),
            Some incomplete_column_update)"
  "apply_schema_contract (base\<lparr>columns := discard_row\<rparr>) ''mixed_table''
      (test_data @ [(''incomplete_column_1'', PStr ''some other string'')])
      incomplete_column_update (Some mixed_table)
     = Inr (None, None)"
  "apply_schema_contract (base\<lparr>columns := discard_value\<rparr>) ''mixed_table''
      (test_data @ [(''incomplete_column_1'', PStr ''some other string'')])
      incomplete_column_update (Some mixed_table)
     = Inr (Some test_data, Some (incomplete_column_update\<lparr>table_columns := []\<rparr>))"
  "apply_schema_contract (base\<lparr>columns := freeze\<rparr>) ''mixed_table''
      (test_data @ [(''incomplete_column_1'', PStr ''some other string'')])
      incomplete_column_update (Some mixed_table)
     = Inl (SchemaFrozen ''mixed_table'' (Some ''incomplete_column_1'') columns_slot new_column)"
  by (simp_all add: ex_defs contract_defs)

lemma test_check_adding_new_variant:
  "apply_schema_contract (DEFAULT_SCHEMA_CONTRACT_MODE\<lparr>data_type := evolve\<rparr>) ''tables''
      (test_data @ [(''column_2_variant'', PInt 345345)]) variant_update (Some tables_table)
     = Inr (Some (test_data @ [(''column_2_variant'', PInt 345345)]), Some variant_update)"
  "apply_schema_contract (DEFAULT_SCHEMA_CONTRACT_MODE\<lparr>data_type := discard_row\<rparr>) ''tables''
      (test_data @ [(''column_2_variant'', PInt 345345)]) variant_update (Some tables_table)
     = Inr (None, None)"
  "apply_schema_contract (DEFAULT_SCHEMA_CONTRACT_MODE\<lparr>data_type := discard_value\<rparr>) ''tables''
      (test_data @ [(''column_2_variant'', PInt 345345)]) variant_update (Some tables_table)
     = Inr (Some test_data, Some (variant_update\<lparr>table_columns := []\<rparr>))"
  "apply_schema_contract (DEFAULT_SCHEMA_CONTRACT_MODE\<lparr>data_type := freeze\<rparr>) ''tables''
      (test_data @ [(''column_2_variant'', PInt 345345)]) variant_update (Some tables_table)
     = Inl (SchemaFrozen ''tables'' (Some ''column_2_variant'') data_type_slot new_variant)"
  by (simp_all add: ex_defs contract_defs)

subsection \<open>Schema contract engine: resolution of the modes of a table\<close>

text \<open>
  C4, as stated, fails in one part: a partial mapping does not leave the slots it does not
  name at \<^verbatim>\<open>evolve\<close>. In the "mixed settings" case of the tests the schema override is
  the atom \<^verbatim>\<open>freeze\<close> and the table's mapping names only \<^verbatim>\<open>tables\<close> and
  \<^verbatim>\<open>columns\<close>; the resolved \<^verbatim>\<open>data_type\<close> is \<^verbatim>\<open>freeze\<close>.
\<close>

theorem partial_mapping_keeps_lower_layer:
  "table_override mixed_settings_schema ''tables''
     = Some (Mapping (Some evolve) (Some discard_value) None)
   \<and> data_type (resolve_contract_settings_for_table mixed_settings_schema None ''tables'') = freeze
   \<and> data_type (resolve_contract_settings_for_table mixed_settings_schema None ''tables'') \<noteq> evolve"
  by (simp add: ex_defs resolve_contract_settings_for_table_def table_override_def overlay_def
        DEFAULT_SCHEMA_CONTRACT_MODE_def)

text \<open>
  C4, amended: the modes of a table are the default triple
  \<^verbatim>\<open>evolve/evolve/evolve\<close> overlaid with the schema's override, then the parent
  table's override (if a parent is given), then the table's own. An absent override
  changes nothing, an atom sets all three slots, and a mapping sets the slots it names
  and leaves every other slot at the value of the layers below (which is \<^verbatim>\<open>evolve\<close>
  when the mapping is laid on the default). A child table without an override of its own
  resolves to what its parent resolves to.
\<close>

theorem resolve_contract_settings_layers:
  "resolve_contract_settings_for_table s parent_table table =
     overlay (table_override s table)
       (overlay (case parent_table of None \<Rightarrow> None | Some p \<Rightarrow> table_override s p)
          (overlay (settings_schema_contract s)
             \<lparr>tables = evolve, columns = evolve, data_type = evolve\<rparr>))
   \<and> overlay None m = m
   \<and> overlay (Some (Atom a)) m = \<lparr>tables = a, columns = a, data_type = a\<rparr>
   \<and> overlay (Some (Mapping t c d)) m =
        \<lparr>tables = (case t of None \<Rightarrow> tables m | Some x \<Rightarrow> x),
         columns = (case c of None \<Rightarrow> columns m | Some x \<Rightarrow> x),
         data_type = (case d of None \<Rightarrow> data_type m | Some x \<Rightarrow> x)\<rparr>
   \<and> overlay (Some (Mapping t c d)) \<lparr>tables = evolve, columns = evolve, data_type = evolve\<rparr> =
        \<lparr>tables = (case t of None \<Rightarrow> evolve | Some x \<Rightarrow> x),
         columns = (case c of None \<Rightarrow> evolve | Some x \<Rightarrow> x),
         data_type = (case d of None \<Rightarrow> evolve | Some x \<Rightarrow> x)\<rparr>
   \<and> (table_override s table = None \<longrightarrow>
        resolve_contract_settings_for_table s (Some p) table
          = resolve_contract_settings_for_table s None p)"
  by (simp add: resolve_contract_settings_for_table_def overlay_def
        DEFAULT_SCHEMA_CONTRACT_MODE_def split: option.splits)

theorem resolve_contract_settings_layers_witness:
  "table_override mixed_settings_schema ''child_table'' = None
   \<and> resolve_contract_settings_for_table mixed_settings_schema None ''tables''
       = \<lparr>tables = evolve, columns = discard_value, data_type = freeze\<rparr>
   \<and> resolve_contract_settings_for_table mixed_settings_schema (Some ''tables'') ''child_table''
       = \<lparr>tables = evolve, columns = discard_value, data_type = freeze\<rparr>"
proof -
  have h: "table_override mixed_settings_schema ''child_table'' = None"
    by (simp add: ex_defs table_override_def)
  have own: "resolve_contract_settings_for_table mixed_settings_schema None ''tables''
       = \<lparr>tables = evolve, columns = discard_value, data_type = freeze\<rparr>"
    by (simp add: ex_defs resolve_contract_settings_for_table_def table_override_def overlay_def
          DEFAULT_SCHEMA_CONTRACT_MODE_def)
  from resolve_contract_settings_layers
    [where s = mixed_settings_schema and table = "''child_table''" and p = "''tables''"]
  have "resolve_contract_settings_for_table mixed_settings_schema (Some ''tables'') ''child_table''
          = resolve_contract_settings_for_table mixed_settings_schema None ''tables''"
    using h by blast
  with h own show ?thesis by simp
qed

subsection \<open>Extraction: committing the files of an extract\<close>

lemmas storage_defs = commit_extract_files_def list_folder_files_def atomic_rename_def
  link_hard_def delete_folder_def get_extract_path_def EXTRACT_FOLDER_def EXTRACTED_FOLDER_def

lemma map_of_rename:
  "map_of (filter (\<lambda>f. fst f \<noteq> a \<and> fst f \<noteq> b) xs @ [(b, c)]) p
     = (if p = b then Some c else if p = a then None else map_of xs p)"
  by (induction xs) auto

lemma map_of_filter_fst:
  "map_of (filter (\<lambda>f. P (fst f)) xs) p = (if P p then map_of xs p else None)"
  by (induction xs) auto

lemma atomic_rename_ok:
  assumes "map_of (files st) a = Some c" and "b \<noteq> []" and "butlast b \<in> set (folders st)"
    and "b \<notin> set (folders st)"
  shows "\<exists>st'. atomic_rename st a b = Inr st' \<and> folders st' = folders st
           \<and> journal st' = journal st @ [AtomicRename a b]
           \<and> (\<forall>p. map_of (files st') p
                  = (if p = b then Some c else if p = a then None else map_of (files st) p))"
  using assms
  by (simp add: atomic_rename_def map_of_rename del: map_of_append)

lemma loop_renames:
  assumes "distinct ns" and "\<forall>n\<in>set ns. map_of (files st) (E @ [n]) \<noteq> None"
    and "[EXTRACTED_FOLDER] \<in> set (folders st)"
    and "\<forall>n\<in>set ns. [EXTRACTED_FOLDER, n] \<notin> set (folders st)"
    and "length E = 2"
  shows "\<exists>st'. commit_extract_files_loop st E True ns = (None, st')
           \<and> folders st' = folders st
           \<and> journal st' = journal st @ map (\<lambda>n. AtomicRename (E @ [n]) [EXTRACTED_FOLDER, n]) ns
           \<and> (\<forall>p. map_of (files st') p
                  = (if \<exists>n\<in>set ns. p = [EXTRACTED_FOLDER, n] then map_of (files st) (E @ [last p])
                     else if \<exists>n\<in>set ns. p = E @ [n] then None
                     else map_of (files st) p))"
  using assms
proof (induction ns arbitrary: st)
  case Nil
  then show ?case by simp
next
  case (Cons n ns)
  let ?a = "E @ [n]" and ?b = "[EXTRACTED_FOLDER, n]"
  from Cons.prems obtain c where c: "map_of (files st) ?a = Some c" by auto
  from atomic_rename_ok [OF c, of ?b] Cons.prems
  obtain st1 where st1: "atomic_rename st ?a ?b = Inr st1" "folders st1 = folders st"
    "journal st1 = journal st @ [AtomicRename ?a ?b]"
    "\<And>p. map_of (files st1) p = (if p = ?b then Some c else if p = ?a then None else map_of (files st) p)"
    by auto
  have ne: "E @ [m] \<noteq> [EXTRACTED_FOLDER, k]" for m k
    using Cons.prems(5) by (metis length_append_singleton length_Cons list.size(3) numeral_2_eq_2 nat.inject n_not_Suc_n)
  have pre: "\<forall>m\<in>set ns. map_of (files st1) (E @ [m]) \<noteq> None"
    using Cons.prems(1,2) st1(4) ne by auto
  from Cons.IH [of st1] pre Cons.prems st1(2)
  obtain st' where st': "commit_extract_files_loop st1 E True ns = (None, st')"
    "folders st' = folders st1"
    "journal st' = journal st1 @ map (\<lambda>n. AtomicRename (E @ [n]) [EXTRACTED_FOLDER, n]) ns"
    "\<And>p. map_of (files st') p
                  = (if \<exists>n\<in>set ns. p = [EXTRACTED_FOLDER, n] then map_of (files st1) (E @ [last p])
                     else if \<exists>n\<in>set ns. p = E @ [n] then None
                     else map_of (files st1) p)"
    by auto
  have files: "map_of (files st') p
                  = (if \<exists>k\<in>set (n # ns). p = [EXTRACTED_FOLDER, k] then map_of (files st) (E @ [last p])
                     else if \<exists>k\<in>set (n # ns). p = E @ [k] then None
                     else map_of (files st) p)" for p
    using Cons.prems(1) c ne by (auto simp: st'(4) st1(4))
  show ?case
    using st1 st' files by (simp add: Let_def)
qed


lemma listing_props:
  fixes E :: path
  assumes "distinct (map fst (files st))"
  defines "written \<equiv> map (\<lambda>f. last (fst f))
               (filter (\<lambda>f. fst f \<noteq> [] \<and> butlast (fst f) = E) (files st))"
  shows "distinct written" and "\<forall>n\<in>set written. map_of (files st) (E @ [n]) \<noteq> None"
proof -
  have path: "fst f = E @ [last (fst f)]"
    if "f \<in> set (filter (\<lambda>f. fst f \<noteq> [] \<and> butlast (fst f) = E) (files st))" for f
  proof -
    from that have "fst f \<noteq> []" and "butlast (fst f) = E" by simp_all
    then show ?thesis using append_butlast_last_id [of "fst f"] by simp
  qed
  have inj: "inj_on (\<lambda>f. last (fst f)) (set (filter (\<lambda>f. fst f \<noteq> [] \<and> butlast (fst f) = E) (files st)))"
  proof (rule inj_onI)
    fix x y
    assume x: "x \<in> set (filter (\<lambda>f. fst f \<noteq> [] \<and> butlast (fst f) = E) (files st))"
      and y: "y \<in> set (filter (\<lambda>f. fst f \<noteq> [] \<and> butlast (fst f) = E) (files st))"
      and eq: "last (fst x) = last (fst y)"
    from path [OF x] path [OF y] eq have k: "fst x = fst y" by simp
    from x have "(fst x, snd x) \<in> set (files st)" by simp
    moreover from y have "(fst y, snd y) \<in> set (files st)" by simp
    then have "(fst x, snd y) \<in> set (files st)" by (simp only: k)
    ultimately have "(fst x, snd x) \<in> set (files st)" "(fst x, snd y) \<in> set (files st)" .
    with assms(1) have "snd x = snd y" by (rule eq_key_imp_eq_value)
    with k show "x = y" by (simp add: prod_eq_iff)
  qed
  have "distinct (filter (\<lambda>f. fst f \<noteq> [] \<and> butlast (fst f) = E) (files st))"
    using assms(1) by (simp add: distinct_map)
  with inj show "distinct written"
    by (simp add: written_def distinct_map)
  show "\<forall>n\<in>set written. map_of (files st) (E @ [n]) \<noteq> None"
  proof
    fix n assume "n \<in> set written"
    then obtain f where f: "f \<in> set (filter (\<lambda>f. fst f \<noteq> [] \<and> butlast (fst f) = E) (files st))"
      "n = last (fst f)"
      by (auto simp: written_def)
    from path [OF f(1)] f(2) have "E @ [n] = fst f" by simp
    moreover from f(1) have "fst f \<in> fst ` set (files st)" by auto
    ultimately show "map_of (files st) (E @ [n]) \<noteq> None"
      by (simp add: map_of_eq_None_iff)
  qed
qed

lemma atomic_rename_Inr:
  assumes "atomic_rename st a b = Inr st'"
  shows "\<exists>c. map_of (files st) a = Some c \<and> folders st' = folders st
           \<and> journal st' = journal st @ [AtomicRename a b]
           \<and> (\<forall>p. map_of (files st') p
                  = (if p = b then Some c else if p = a then None else map_of (files st) p))"
proof (cases "map_of (files st) a")
  case None
  with assms show ?thesis by (simp add: atomic_rename_def)
next
  case (Some c)
  with assms have "st' = st\<lparr>files := filter (\<lambda>f. fst f \<noteq> a \<and> fst f \<noteq> b) (files st) @ [(b, c)],
                        journal := journal st @ [AtomicRename a b]\<rparr>"
    by (simp add: atomic_rename_def split: if_splits)
  with Some show ?thesis
    by (simp add: map_of_rename del: map_of_append)
qed

lemma loop_committed:
  assumes "commit_extract_files_loop st E True ns = (None, st')"
    and "distinct ns" and "length E = 2"
  shows "folders st' = folders st
       \<and> journal st' = journal st @ map (\<lambda>n. AtomicRename (E @ [n]) [EXTRACTED_FOLDER, n]) ns
       \<and> (\<forall>n\<in>set ns. map_of (files st) (E @ [n]) \<noteq> None)
       \<and> (\<forall>p. map_of (files st') p
              = (if \<exists>n\<in>set ns. p = [EXTRACTED_FOLDER, n] then map_of (files st) (E @ [last p])
                 else if \<exists>n\<in>set ns. p = E @ [n] then None
                 else map_of (files st) p))"
  using assms
proof (induction ns arbitrary: st)
  case Nil
  then show ?case by simp
next
  case (Cons n ns)
  let ?a = "E @ [n]" and ?b = "[EXTRACTED_FOLDER, n]"
  from Cons.prems(1) obtain st1 where r: "atomic_rename st ?a ?b = Inr st1"
    and l: "commit_extract_files_loop st1 E True ns = (None, st')"
    by (auto simp: Let_def split: sum.splits)
  from atomic_rename_Inr [OF r]
  obtain c where c: "map_of (files st) ?a = Some c" and st1: "folders st1 = folders st"
    "journal st1 = journal st @ [AtomicRename ?a ?b]"
    "\<And>p. map_of (files st1) p = (if p = ?b then Some c else if p = ?a then None else map_of (files st) p)"
    by auto
  have ne: "E @ [m] \<noteq> [EXTRACTED_FOLDER, k]" for m k
  proof
    assume "E @ [m] = [EXTRACTED_FOLDER, k]"
    then have "length (E @ [m]) = length [EXTRACTED_FOLDER, k]" by simp
    with Cons.prems(3) show False by simp
  qed
  from Cons.IH [OF l] Cons.prems
  have st': "folders st' = folders st1"
    "journal st' = journal st1 @ map (\<lambda>n. AtomicRename (E @ [n]) [EXTRACTED_FOLDER, n]) ns"
    "\<forall>n\<in>set ns. map_of (files st1) (E @ [n]) \<noteq> None"
    "\<And>p. map_of (files st') p
                  = (if \<exists>n\<in>set ns. p = [EXTRACTED_FOLDER, n] then map_of (files st1) (E @ [last p])
                     else if \<exists>n\<in>set ns. p = E @ [n] then None
                     else map_of (files st1) p)"
    by auto
  have present: "\<forall>k\<in>set (n # ns). map_of (files st) (E @ [k]) \<noteq> None"
    using c st'(3) ne Cons.prems(2) by (auto simp: st1(3) split: if_splits)
  have files: "map_of (files st') p
                  = (if \<exists>k\<in>set (n # ns). p = [EXTRACTED_FOLDER, k] then map_of (files st) (E @ [last p])
                     else if \<exists>k\<in>set (n # ns). p = E @ [k] then None
                     else map_of (files st) p)" for p
    using Cons.prems(2) c ne by (auto simp: st'(4) st1(3))
  show ?case
    using st1(1,2) st'(1,2) present files by simp
qed

lemma commit_succeeds:
  assumes "distinct (map fst (files st))"
    and "get_extract_path extract_id \<in> set (folders st)"
    and "[EXTRACTED_FOLDER] \<in> set (folders st)"
    and "list_all (\<lambda>d. butlast d \<noteq> [EXTRACTED_FOLDER]) (folders st)"
  shows "\<exists>st' written.
           list_folder_files st (get_extract_path extract_id) = Inr written
         \<and> commit_extract_files st extract_id True = (None, st')
         \<and> journal st' =
             journal st
             @ map (\<lambda>f. AtomicRename (get_extract_path extract_id @ [f]) [EXTRACTED_FOLDER, f]) written
             @ [DeleteFolder (get_extract_path extract_id)]
         \<and> distinct written
         \<and> list_all (\<lambda>f. map_of (files st') [EXTRACTED_FOLDER, f]
                          = map_of (files st) (get_extract_path extract_id @ [f])
                        \<and> map_of (files st) (get_extract_path extract_id @ [f]) \<noteq> None) written
         \<and> get_extract_path extract_id \<notin> set (folders st')
         \<and> list_all (\<lambda>f. \<not> prefix (get_extract_path extract_id) (fst f)) (files st')"
proof -
  define E where "E = get_extract_path extract_id"
  define written where "written = map (\<lambda>f. last (fst f))
               (filter (\<lambda>f. fst f \<noteq> [] \<and> butlast (fst f) = E) (files st))"
  have lenE: "length E = 2" by (simp add: E_def get_extract_path_def)
  have listing: "list_folder_files st E = Inr written"
    using assms(2) by (simp add: list_folder_files_def written_def E_def)
  have dw: "distinct written" and ex: "\<forall>n\<in>set written. map_of (files st) (E @ [n]) \<noteq> None"
    using listing_props [OF assms(1), of E] by (simp_all add: written_def)
  have nofolder: "\<forall>n\<in>set written. [EXTRACTED_FOLDER, n] \<notin> set (folders st)"
    using assms(4) by (auto simp: list_all_iff)
  from loop_renames [OF dw ex assms(3) nofolder lenE]
  obtain st1 where st1: "commit_extract_files_loop st E True written = (None, st1)"
    "folders st1 = folders st"
    "journal st1 = journal st @ map (\<lambda>n. AtomicRename (E @ [n]) [EXTRACTED_FOLDER, n]) written"
    "\<And>p. map_of (files st1) p
                  = (if \<exists>n\<in>set written. p = [EXTRACTED_FOLDER, n] then map_of (files st) (E @ [last p])
                     else if \<exists>n\<in>set written. p = E @ [n] then None
                     else map_of (files st) p)"
    by auto
  define st2 where "st2 = st1\<lparr>folders := filter (\<lambda>d. \<not> prefix E d) (folders st1),
                 files := filter (\<lambda>f. \<not> prefix E (fst f)) (files st1),
                 journal := journal st1 @ [DeleteFolder E]\<rparr>"
  have del: "delete_folder st1 E = Inr st2"
    using assms(2) st1(2) by (simp add: delete_folder_def st2_def E_def)
  have commit: "commit_extract_files st extract_id True = (None, st2)"
    using listing st1(1) del by (simp add: commit_extract_files_def E_def [symmetric])
  have notpre: "\<not> prefix E [EXTRACTED_FOLDER, n]" for n
    by (simp add: E_def get_extract_path_def EXTRACT_FOLDER_def EXTRACTED_FOLDER_def)
  have moved: "map_of (files st2) [EXTRACTED_FOLDER, n] = map_of (files st) (E @ [n])"
    if "n \<in> set written" for n
  proof -
    have "map_of (files st2) [EXTRACTED_FOLDER, n] = map_of (files st1) [EXTRACTED_FOLDER, n]"
      using notpre [of n]
      by (simp add: st2_def map_of_filter_fst [where P = "\<lambda>q. \<not> prefix E q"])
    also have "\<dots> = map_of (files st) (E @ [n])"
      using that by (auto simp: st1(4))
    finally show ?thesis .
  qed
  show ?thesis
    apply (rule exI [of _ st2], rule exI [of _ written])
    using listing commit dw ex moved
    by (auto simp: E_def [symmetric] st2_def st1 list_all_iff)
qed


text \<open>
  C7: let every path of the storage name one file. Then
  \<^verbatim>\<open>commit_extract_files(extract_id)\<close> with deletion enabled (what \<^verbatim>\<open>extract\<close> calls
  after closing the writers) raises nothing whenever the staging folder and the
  normalize-input folder exist and the latter holds no subfolder; and whenever it raises
  nothing, the journal grew by exactly one atomic rename per file listed in
  \<^verbatim>\<open>extract/<extract_id>\<close>, each listed once, from the staging folder to the same base
  name in the normalize-input folder, followed by the deletion of the staging folder;
  every such file is found with its contents under the normalize-input folder; the
  staging folder is no longer a folder and no file lies below it.
\<close>

theorem commit_extract_files_moves_all:
  assumes "distinct (map fst (files st))"
  shows "(get_extract_path extract_id \<in> set (folders st) \<and> [EXTRACTED_FOLDER] \<in> set (folders st)
            \<and> list_all (\<lambda>d. butlast d \<noteq> [EXTRACTED_FOLDER]) (folders st)
          \<longrightarrow> fst (commit_extract_files st extract_id True) = None)
       \<and> (\<forall>st'. commit_extract_files st extract_id True = (None, st') \<longrightarrow>
            (\<exists>written.
                list_folder_files st (get_extract_path extract_id) = Inr written
              \<and> distinct written
              \<and> journal st' =
                  journal st
                  @ map (\<lambda>f. AtomicRename (get_extract_path extract_id @ [f]) [EXTRACTED_FOLDER, f])
                      written
                  @ [DeleteFolder (get_extract_path extract_id)]
              \<and> list_all (\<lambda>f. map_of (files st) (get_extract_path extract_id @ [f]) \<noteq> None
                             \<and> map_of (files st') [EXTRACTED_FOLDER, f]
                                 = map_of (files st) (get_extract_path extract_id @ [f])) written
              \<and> get_extract_path extract_id \<notin> set (folders st')
              \<and> list_all (\<lambda>f. \<not> prefix (get_extract_path extract_id) (fst f)) (files st')))"
proof (intro conjI impI allI)
  assume "get_extract_path extract_id \<in> set (folders st) \<and> [EXTRACTED_FOLDER] \<in> set (folders st)
            \<and> list_all (\<lambda>d. butlast d \<noteq> [EXTRACTED_FOLDER]) (folders st)"
  with commit_succeeds [OF assms, of extract_id]
  show "fst (commit_extract_files st extract_id True) = None"
    by auto
next
  fix st'
  assume commit: "commit_extract_files st extract_id True = (None, st')"
  define E where "E = get_extract_path extract_id"
  define written where "written = map (\<lambda>f. last (fst f))
               (filter (\<lambda>f. fst f \<noteq> [] \<and> butlast (fst f) = E) (files st))"
  have lenE: "length E = 2" by (simp add: E_def get_extract_path_def)
  have "E \<in> set (folders st)"
  proof (rule ccontr)
    assume "E \<notin> set (folders st)"
    then have "commit_extract_files st extract_id True = (Some (StoragePathNotFound E), st)"
      by (simp add: commit_extract_files_def list_folder_files_def E_def)
    with commit show False by simp
  qed
  then have listing: "list_folder_files st E = Inr written"
    by (simp add: list_folder_files_def written_def)
  from commit listing obtain st1 where
    loop: "commit_extract_files_loop st E True written = (None, st1)"
    and del: "delete_folder st1 E = Inr st'"
    by (auto simp: commit_extract_files_def E_def [symmetric]
          split: prod.splits option.splits sum.splits)
  have dw: "distinct written"
    using listing_props(1) [OF assms, of E] by (simp add: written_def)
  from loop_committed [OF loop dw lenE]
  have st1: "folders st1 = folders st"
    "journal st1 = journal st @ map (\<lambda>n. AtomicRename (E @ [n]) [EXTRACTED_FOLDER, n]) written"
    "\<forall>n\<in>set written. map_of (files st) (E @ [n]) \<noteq> None"
    "\<And>p. map_of (files st1) p
                  = (if \<exists>n\<in>set written. p = [EXTRACTED_FOLDER, n] then map_of (files st) (E @ [last p])
                     else if \<exists>n\<in>set written. p = E @ [n] then None
                     else map_of (files st) p)"
    by auto
  from del have st': "st' = st1\<lparr>folders := filter (\<lambda>d. \<not> prefix E d) (folders st1),
                 files := filter (\<lambda>f. \<not> prefix E (fst f)) (files st1),
                 journal := journal st1 @ [DeleteFolder E]\<rparr>"
    by (simp add: delete_folder_def split: if_splits)
  have notpre: "\<not> prefix E [EXTRACTED_FOLDER, n]" for n
    by (simp add: E_def get_extract_path_def EXTRACT_FOLDER_def EXTRACTED_FOLDER_def)
  have moved: "map_of (files st') [EXTRACTED_FOLDER, n] = map_of (files st) (E @ [n])"
    if "n \<in> set written" for n
  proof -
    have "map_of (files st') [EXTRACTED_FOLDER, n] = map_of (files st1) [EXTRACTED_FOLDER, n]"
      using notpre [of n]
      by (simp add: st' map_of_filter_fst [where P = "\<lambda>q. \<not> prefix E q"])
    also have "\<dots> = map_of (files st) (E @ [n])"
      using that by (auto simp: st1(4))
    finally show ?thesis .
  qed
  show "\<exists>written.
                list_folder_files st (get_extract_path extract_id) = Inr written
              \<and> distinct written
              \<and> journal st' =
                  journal st
                  @ map (\<lambda>f. AtomicRename (get_extract_path extract_id @ [f]) [EXTRACTED_FOLDER, f])
                      written
                  @ [DeleteFolder (get_extract_path extract_id)]
              \<and> list_all (\<lambda>f. map_of (files st) (get_extract_path extract_id @ [f]) \<noteq> None
                             \<and> map_of (files st') [EXTRACTED_FOLDER, f]
                                 = map_of (files st) (get_extract_path extract_id @ [f])) written
              \<and> get_extract_path extract_id \<notin> set (folders st')
              \<and> list_all (\<lambda>f. \<not> prefix (get_extract_path extract_id) (fst f)) (files st')"
    apply (rule exI [of _ written])
    using listing dw moved st1(3)
    by (auto simp: E_def [symmetric] st' st1(1,2) list_all_iff)
qed

theorem commit_extract_files_moves_all_witness:
  "distinct (map fst (files staged_storage))
   \<and> commit_extract_files staged_storage ''x1'' True =
       (None,
        \<lparr>folders = [[''extract''], [''normalize'']],
         files = [([''normalize'', ''event.users.w0''], ''id=7''),
                  ([''normalize'', ''event.orders.w1''], ''id=1''),
                  ([''normalize'', ''event.users.w2''], ''id=2'')],
         journal = [AtomicRename [''extract'', ''x1'', ''event.orders.w1'']
                                 [''normalize'', ''event.orders.w1''],
                    AtomicRename [''extract'', ''x1'', ''event.users.w2'']
                                 [''normalize'', ''event.users.w2''],
                    DeleteFolder [''extract'', ''x1'']]\<rparr>)"
proof -
  have h: "distinct (map fst (files staged_storage))"
    by (simp add: staged_storage_def)
  show ?thesis
    using h commit_extract_files_moves_all [OF h, of "''x1''"]
    by (simp add: staged_storage_def storage_defs Let_def)
qed

subsection \<open>Google credentials: round trip through the native representation\<close>

lemmas cred_defs = credentials_dict_def set_attribute_def credentials_update_def is_partial_def
  from_info_dict_def to_native_representation_def gcp_parse_native_representation_def
  json_attributes_def new_gcp_client_credentials_def

lemma update_keeps_json_private_key:
  "private_key c \<noteq> Native n
   \<Longrightarrow> private_key (credentials_update c (map (\<lambda>kv. (fst kv, Json (snd kv))) d)) \<noteq> Native n"
proof (induction d arbitrary: c)
  case Nil
  then show ?case by (simp add: credentials_update_def)
next
  case (Cons kv d)
  have "private_key (set_attribute c (fst kv) (Json (snd kv))) \<noteq> Native n"
    using Cons.prems by (simp add: set_attribute_def)
  from Cons.IH [OF this] show ?case
    by (simp add: credentials_update_def)
qed

text \<open>
  C9, as stated, fails for a credential that \<^verbatim>\<open>parse_native_representation\<close> built from
  native service account credentials: it is resolved and not partial, and it keeps the
  native object in \<^verbatim>\<open>private_key\<close>. Whatever the JSON library does, parsing the
  rendered string on a fresh instance never gives that credential back, because every
  value assigned from a loaded document is a JSON value.
\<close>

theorem native_credentials_do_not_roundtrip:
  "(\<forall>lib. gcp_parse_native_representation lib (new_gcp_client_credentials 15 1800 60)
            (NativeServiceAccount example_account) = Inr native_credentials)
   \<and> dunder_is_resolved native_credentials
   \<and> \<not> is_partial native_credentials
   \<and> (\<forall>lib s. \<not> (to_native_representation lib native_credentials = Inr s
                  \<and> gcp_parse_native_representation lib (new_gcp_client_credentials 15 1800 60)
                       (NativeStr s) = Inr native_credentials))"
proof (intro conjI allI notI)
  fix lib :: "int json_library"
  show "gcp_parse_native_representation lib (new_gcp_client_credentials 15 1800 60)
            (NativeServiceAccount example_account) = Inr native_credentials"
    by (simp add: cred_defs native_credentials_def example_account_def)
next
  show "dunder_is_resolved native_credentials"
    by (simp add: native_credentials_def)
next
  assume "is_partial native_credentials"
  then show False
    by (simp add: cred_defs native_credentials_def)
next
  fix lib :: "int json_library" and s
  assume a: "to_native_representation lib native_credentials = Inr s
       \<and> gcp_parse_native_representation lib (new_gcp_client_credentials 15 1800 60)
            (NativeStr s) = Inr native_credentials"
  let ?fresh = "new_gcp_client_credentials 15 1800 60 :: int gcp_client_credentials"
  have fresh: "private_key ?fresh \<noteq> Native example_account"
    by (simp add: new_gcp_client_credentials_def)
  from a obtain d where
    "from_info_dict ?fresh (map (\<lambda>kv. (fst kv, Json (snd kv))) d) = native_credentials"
    by (auto simp: gcp_parse_native_representation_def split: option.splits json.splits)
  then have "private_key native_credentials
      = private_key (from_info_dict ?fresh (map (\<lambda>kv. (fst kv, Json (snd kv))) d))"
    by simp
  then have "private_key native_credentials
      = private_key (credentials_update ?fresh (map (\<lambda>kv. (fst kv, Json (snd kv))) d))"
    by (simp add: from_info_dict_def Let_def)
  with update_keeps_json_private_key [OF fresh, of d]
  show False
    by (simp add: native_credentials_def)
qed

text \<open>
  C9, amended: let \<open>c\<close> be a resolved, non-partial \<^verbatim>\<open>GcpClientCredentials\<close> whose
  attributes all hold JSON values, and let \<^verbatim>\<open>json.loads\<close> read the string that
  \<^verbatim>\<open>json.dumps\<close> renders for \<^verbatim>\<open>dict(c)\<close> back as the same object. Then
  \<^verbatim>\<open>to_native_representation\<close> returns that string, and \<^verbatim>\<open>parse_native_representation\<close>
  of it, on any instance of the class, gives an instance equal to \<open>c\<close>: the same
  attribute values and the resolved flag.
\<close>

theorem credentials_roundtrip:
  assumes "json_attributes c = Some d"
    and "dumps lib (credentials_dict c) = Some s" and "loads lib s = Some (JObject d)"
    and "dunder_is_resolved c" and "\<not> is_partial c"
  shows "to_native_representation lib c = Inr s
       \<and> gcp_parse_native_representation lib target (NativeStr s) = Inr c"
proof -
  obtain a1 a2 a3 a4 a5 a6 a7 a8 a9 a10 where
    attrs: "token_uri c = Json a1" "auth_uri c = Json a2" "project_id c = Json a3"
      "location c = Json a4" "http_timeout c = Json a5" "file_upload_timeout c = Json a6"
      "retry_deadline c = Json a7" "private_key c = Json a8" "client_email c = Json a9"
      "credentials_type c = Json a10"
    using assms(1)
    by (auto simp: json_attributes_def credentials_dict_def split: if_splits pyattr.splits)
  have d: "d = [(''token_uri'', a1), (''auth_uri'', a2), (''project_id'', a3),
      (''location'', a4), (''http_timeout'', a5), (''file_upload_timeout'', a6),
      (''retry_deadline'', a7), (''private_key'', a8), (''client_email'', a9), (''type'', a10)]"
    using assms(1) attrs by (simp add: json_attributes_def credentials_dict_def)
  have upd: "credentials_update target (map (\<lambda>kv. (fst kv, Json (snd kv))) d)
      = c\<lparr>dunder_is_resolved := dunder_is_resolved target\<rparr>"
    by (simp add: d credentials_update_def set_attribute_def attrs [symmetric])
  have part: "is_partial (c\<lparr>dunder_is_resolved := b\<rparr>) = is_partial c" for b
    by (simp add: is_partial_def credentials_dict_def)
  show ?thesis
    using assms(2-5)
    by (simp add: to_native_representation_def gcp_parse_native_representation_def
          from_info_dict_def upd part Let_def)
qed

theorem credentials_roundtrip_witness:
  "dunder_is_resolved json_credentials \<and> \<not> is_partial json_credentials
   \<and> to_native_representation one_document_library json_credentials = Inr ''doc''
   \<and> gcp_parse_native_representation one_document_library (new_gcp_client_credentials 15 1800 60)
        (NativeStr ''doc'') = Inr json_credentials"
proof -
  let ?d = "map (\<lambda>kv. (fst kv, case snd kv of Json v \<Rightarrow> v | Native _ \<Rightarrow> JNull))
              (credentials_dict json_credentials)"
  have h1: "json_attributes json_credentials = Some ?d"
    by (simp add: json_attributes_def credentials_dict_def json_credentials_def
          new_gcp_client_credentials_def)
  have h2: "dumps one_document_library (credentials_dict json_credentials) = Some ''doc''"
    by (simp add: one_document_library_def)
  have h3: "loads one_document_library ''doc'' = Some (JObject ?d)"
    by (simp add: one_document_library_def)
  have h4: "dunder_is_resolved json_credentials"
    by (simp add: json_credentials_def)
  have h5: "\<not> is_partial json_credentials"
    by (simp add: is_partial_def credentials_dict_def json_credentials_def
          new_gcp_client_credentials_def)
  from credentials_roundtrip [OF h1 h2 h3 h4 h5, of "new_gcp_client_credentials 15 1800 60"] h4 h5
  show ?thesis by simp
qed

subsection \<open>Classification of driver exceptions\<close>

text \<open>
  C10, as stated, fails: a \<^verbatim>\<open>pyodbc.ProgrammingError\<close> whose \<^verbatim>\<open>args\<close> is the
  one-element tuple \<^verbatim>\<open>("42000",)\<close> passes the first comparison and then reads
  \<^verbatim>\<open>ex.args[1]\<close>, which raises \<^verbatim>\<open>IndexError\<close>; no database exception is returned.
\<close>

theorem make_database_exception_short_args:
  "make_database_exception \<lparr>cls = ProgrammingError, args = [PStr ''42000'']\<rparr> = Inl IndexError"
  by (simp add: make_database_exception_def args_at_def)

text \<open>
  C10, amended: for every exception that is not a pyodbc error, for every
  \<^verbatim>\<open>pyodbc.OperationalError\<close>, and for every other pyodbc error whose \<^verbatim>\<open>args\<close> has
  at least two elements with a string in second place, the function raises nothing and
  returns exactly one of \<^verbatim>\<open>DatabaseUndefinedRelation\<close>,
  \<^verbatim>\<open>DatabaseTransientException\<close> or \<^verbatim>\<open>DatabaseTerminalException\<close>, wrapping the
  exception it was given.
\<close>

theorem make_database_exception_total:
  assumes "cls ex = OperationalError \<or> cls ex = OtherException \<or> driver_args (args ex)"
  shows "make_database_exception ex = Inr (DatabaseUndefinedRelation ex)
       \<or> make_database_exception ex = Inr (DatabaseTransientException ex)
       \<or> make_database_exception ex = Inr (DatabaseTerminalException ex)"
  using assms
  by (cases "cls ex")
     (auto simp: make_database_exception_def args_at_def py_contains_def driver_args_def
           split: list.splits pyobj.splits)

theorem make_database_exception_total_witness:
  "driver_args [PStr ''42000'', PStr ''Cannot find the object (15151)'']
   \<and> make_database_exception
        \<lparr>cls = ProgrammingError, args = [PStr ''42000'', PStr ''Cannot find the object (15151)'']\<rparr>
     = Inr (DatabaseUndefinedRelation
        \<lparr>cls = ProgrammingError, args = [PStr ''42000'', PStr ''Cannot find the object (15151)'']\<rparr>)"
  using make_database_exception_total
    [of "\<lparr>cls = ProgrammingError, args = [PStr ''42000'', PStr ''Cannot find the object (15151)'']\<rparr>"]
  by (simp add: make_database_exception_def args_at_def py_contains_def driver_args_def
        sublist_code)

end
